theory Spec2Isabelle
  imports Complex_Main "HOL-Library.AList"
begin

section \<open>Python values, errors and the random source\<close>

text \<open>
  The optimizer of \<^verbatim>\<open>src/optimization/genetic_algorithm.py\<close> (class
  \<^verbatim>\<open>TeamOptimizer\<close>) is embedded function by function. Exceptions are values of
  \<open>py_error\<close>; a function that can raise returns \<open>py_error + 'a\<close>.
\<close>

datatype py_error = ValueError | IndexError | TypeError | FileNotFoundError | AttributeError

text \<open>
  A Python float is a finite number, an infinity or NaN. Only classification and
  comparison of floats are modelled; the payload of \<open>Fin\<close> is the exact value of the
  double, rounding of arithmetic is not modelled.
\<close>

datatype pyfloat = Fin real | PInf | NInf | NaN

fun isnan :: "pyfloat \<Rightarrow> bool" where
  "isnan NaN = True"
| "isnan _ = False"

fun isinf :: "pyfloat \<Rightarrow> bool" where
  "isinf PInf = True"
| "isinf NInf = True"
| "isinf _ = False"

text \<open>Python's \<^verbatim>\<open>a > b\<close> on floats: every comparison with NaN is false.\<close>

fun py_gt :: "pyfloat \<Rightarrow> pyfloat \<Rightarrow> bool" where
  "py_gt NaN _ = False"
| "py_gt _ NaN = False"
| "py_gt (Fin a) (Fin b) = (a > b)"
| "py_gt PInf PInf = False"
| "py_gt PInf _ = True"
| "py_gt _ PInf = False"
| "py_gt NInf _ = False"
| "py_gt (Fin a) NInf = True"

text \<open>Python's \<^verbatim>\<open>a >= b\<close> on floats.\<close>

fun py_ge :: "pyfloat \<Rightarrow> pyfloat \<Rightarrow> bool" where
  "py_ge NaN _ = False"
| "py_ge _ NaN = False"
| "py_ge (Fin a) (Fin b) = (a \<ge> b)"
| "py_ge PInf _ = True"
| "py_ge _ NInf = True"
| "py_ge _ PInf = False"
| "py_ge NInf (Fin b) = False"

text \<open>
  The code draws from two global generators (\<^verbatim>\<open>random\<close> and \<^verbatim>\<open>np.random\<close>).
  The model threads one tape of raw draws through every call; each library function
  reduces the raw draw into the range of results the library documents, so that every
  result the library can return is the image of some tape. An exhausted tape reads 0.
\<close>

type_synonym rng = "nat list"

fun draw :: "rng \<Rightarrow> nat \<times> rng" where
  "draw [] = (0, [])"
| "draw (k # ks) = (k, ks)"

text \<open>\<^verbatim>\<open>random.random()\<close>: a multiple of \<open>2^-53\<close> in \<open>[0, 1)\<close>.\<close>

definition random_random :: "rng \<Rightarrow> real \<times> rng" where
  "random_random g = (case draw g of (k, g') \<Rightarrow> (real (k mod 2 ^ 53) / 2 ^ 53, g'))"

text \<open>\<^verbatim>\<open>random.randint(a, b)\<close>: an integer of \<open>[a, b]\<close>; ValueError on an empty range.\<close>

definition random_randint :: "int \<Rightarrow> int \<Rightarrow> rng \<Rightarrow> py_error + (int \<times> rng)" where
  "random_randint a b g =
     (if b < a then Inl ValueError
      else case draw g of (k, g') \<Rightarrow> Inr (a + int (k mod nat (b - a + 1)), g'))"

text \<open>\<^verbatim>\<open>np.random.choice(arr)\<close> on a one-dimensional array: one of its elements.\<close>

definition np_random_choice :: "nat list \<Rightarrow> rng \<Rightarrow> py_error + (nat \<times> rng)" where
  "np_random_choice arr g =
     (if arr = [] then Inl ValueError
      else case draw g of (k, g') \<Rightarrow> Inr (arr ! (k mod length arr), g'))"

text \<open>
  \<^verbatim>\<open>np.random.choice(a, size, replace=False)\<close> for integers \<open>a\<close> and \<open>size\<close>:
  \<open>size\<close> distinct elements of \<open>range(a)\<close> in any order. NumPy raises ValueError when
  \<open>a \<le> 0\<close> and samples are asked for, when \<open>size > a\<close>, and when \<open>size < 0\<close>.
\<close>

fun sample_distinct :: "nat \<Rightarrow> nat list \<Rightarrow> rng \<Rightarrow> nat list \<times> rng" where
  "sample_distinct 0 pool g = ([], g)"
| "sample_distinct (Suc k) pool g =
     (if pool = [] then ([], g)
      else case draw g of (j, g1) \<Rightarrow>
        (let p = j mod length pool in
         case sample_distinct k (take p pool @ drop (Suc p) pool) g1 of
           (xs, g2) \<Rightarrow> (pool ! p # xs, g2)))"

definition np_random_choice_noreplace :: "int \<Rightarrow> int \<Rightarrow> rng \<Rightarrow> py_error + (nat list \<times> rng)" where
  "np_random_choice_noreplace a sz g =
     (if a \<le> 0 \<and> sz \<noteq> 0 then Inl ValueError
      else if sz > a then Inl ValueError
      else if sz < 0 then Inl ValueError
      else Inr (sample_distinct (nat sz) [0..<nat a] g))"

text \<open>\<^verbatim>\<open>xs[lo:hi]\<close> for non-negative bounds.\<close>

definition py_slice :: "'a list \<Rightarrow> nat \<Rightarrow> nat \<Rightarrow> 'a list" where
  "py_slice xs lo hi = take (hi - lo) (drop lo xs)"

text \<open>\<^verbatim>\<open>np.setdiff1d(ar1, ar2)\<close>: the sorted, unique values of \<open>ar1\<close> that are not in \<open>ar2\<close>.\<close>

definition setdiff1d :: "nat list \<Rightarrow> nat list \<Rightarrow> nat list" where
  "setdiff1d ar1 ar2 = filter (\<lambda>x. x \<notin> set ar2) (sort (remdups ar1))"

section \<open>Chromosomes\<close>

text \<open>
  A chromosome is an array of candidate indices. It is valid for a pool of \<open>N\<close>
  candidates and a team size when it has that length, its genes are pairwise distinct
  and every gene is an index of the pool.
\<close>

type_synonym chromosome = "nat list"

definition valid_chromosome :: "nat \<Rightarrow> nat \<Rightarrow> chromosome \<Rightarrow> bool" where
  "valid_chromosome N tsize c \<longleftrightarrow> length c = tsize \<and> distinct c \<and> list_all (\<lambda>g. g < N) c"

section \<open>Crossover\<close>

text \<open>
  The two filling loops of \<^verbatim>\<open>_crossover\<close>:
  \<^verbatim>\<open>for i in range(size): if i < start or i > end: child[i] = remaining[idx]; idx += 1\<close>.
  A read past the end of \<open>remaining\<close> and a write past the end of \<open>child\<close> raise IndexError.
\<close>

fun fill_outside ::
  "nat list \<Rightarrow> nat \<Rightarrow> nat \<Rightarrow> nat list \<Rightarrow> chromosome \<Rightarrow> nat \<Rightarrow> py_error + chromosome" where
  "fill_outside [] start end_idx remaining child idx = Inr child"
| "fill_outside (i # is) start end_idx remaining child idx =
     (if i < start \<or> i > end_idx then
        (if idx < length remaining \<and> i < length child
         then fill_outside is start end_idx remaining (child[i := remaining ! idx]) (idx + 1)
         else Inl IndexError)
      else fill_outside is start end_idx remaining child idx)"

definition crossover ::
  "real \<Rightarrow> chromosome \<Rightarrow> chromosome \<Rightarrow> rng \<Rightarrow> py_error + ((chromosome \<times> chromosome) \<times> rng)" where
  "crossover crossover_rate parent1 parent2 g =
     (case random_random g of (u, g1) \<Rightarrow>
        if u > crossover_rate then Inr ((parent1, parent2), g1)
        else
          (let sz = length parent1 in
           case random_randint 0 (int sz - 2) g1 of
             Inl err \<Rightarrow> Inl err
           | Inr (start, g2) \<Rightarrow>
               (case random_randint (start + 1) (int sz - 1) g2 of
                  Inl err \<Rightarrow> Inl err
                | Inr (end_idx, g3) \<Rightarrow>
                    (let s = nat start; e = nat end_idx;
                         segment1 = py_slice parent1 s (e + 1);
                         segment2 = py_slice parent2 s (e + 1);
                         remaining1 = filter (\<lambda>item. item \<notin> set segment1) parent2;
                         remaining2 = filter (\<lambda>item. item \<notin> set segment2) parent1
                     in case fill_outside [0..<sz] s e remaining1 parent1 0 of
                          Inl err \<Rightarrow> Inl err
                        | Inr child1 \<Rightarrow>
                            (case fill_outside [0..<sz] s e remaining2 parent2 0 of
                               Inl err \<Rightarrow> Inl err
                             | Inr child2 \<Rightarrow> Inr ((child1, child2), g3))))))"

section \<open>Mutation\<close>

text \<open>
  The body of the loop of \<^verbatim>\<open>_mutate\<close> at position \<open>i\<close>, and the loop over
  \<^verbatim>\<open>range(len(mutated))\<close>.
\<close>

definition mutate_step ::
  "nat \<Rightarrow> real \<Rightarrow> nat \<Rightarrow> chromosome \<Rightarrow> rng \<Rightarrow> py_error + (chromosome \<times> rng)" where
  "mutate_step num_cand mutation_rate i mutated g =
     (case random_random g of (u, g1) \<Rightarrow>
        if u < mutation_rate then
          (let candidates_not_in_team = setdiff1d [0..<num_cand] mutated in
           if length candidates_not_in_team > 0 then
             (case np_random_choice candidates_not_in_team g1 of
                Inl err \<Rightarrow> Inl err
              | Inr (new_candidate, g2) \<Rightarrow>
                  if i < length mutated then Inr (mutated[i := new_candidate], g2)
                  else Inl IndexError)
           else Inr (mutated, g1))
        else Inr (mutated, g1))"

fun mutate_loop ::
  "nat \<Rightarrow> real \<Rightarrow> nat list \<Rightarrow> chromosome \<Rightarrow> rng \<Rightarrow> py_error + (chromosome \<times> rng)" where
  "mutate_loop num_cand mutation_rate [] mutated g = Inr (mutated, g)"
| "mutate_loop num_cand mutation_rate (i # is) mutated g =
     (case mutate_step num_cand mutation_rate i mutated g of
        Inl err \<Rightarrow> Inl err
      | Inr (mutated', g') \<Rightarrow> mutate_loop num_cand mutation_rate is mutated' g')"

definition mutate :: "nat \<Rightarrow> real \<Rightarrow> chromosome \<Rightarrow> rng \<Rightarrow> py_error + (chromosome \<times> rng)" where
  "mutate num_cand mutation_rate chromosome g =
     mutate_loop num_cand mutation_rate [0..<length chromosome] chromosome g"

section \<open>Population initialization\<close>

text \<open>
  \<^verbatim>\<open>_initialize_population\<close>: \<^verbatim>\<open>population_size\<close> times, sample \<^verbatim>\<open>team_size\<close>
  indices of \<^verbatim>\<open>range(num_candidates)\<close> without replacement. The code has no check of
  its own on \<^verbatim>\<open>team_size\<close>; the only failure is the one NumPy raises.
\<close>

fun init_loop ::
  "nat \<Rightarrow> int \<Rightarrow> int \<Rightarrow> chromosome list \<Rightarrow> rng \<Rightarrow> py_error + (chromosome list \<times> rng)" where
  "init_loop 0 num_cand tsize population g = Inr (population, g)"
| "init_loop (Suc k) num_cand tsize population g =
     (case np_random_choice_noreplace num_cand tsize g of
        Inl err \<Rightarrow> Inl err
      | Inr (chromosome, g') \<Rightarrow> init_loop k num_cand tsize (population @ [chromosome]) g')"

definition initialize_population ::
  "int \<Rightarrow> nat \<Rightarrow> int \<Rightarrow> rng \<Rightarrow> py_error + (chromosome list \<times> rng)" where
  "initialize_population pop_size num_cand tsize g =
     init_loop (nat pop_size) (int num_cand) tsize [] g"

section \<open>Selection\<close>

text \<open>
  \<^verbatim>\<open>np.argmax\<close>: the first index of the maximum; a NaN counts as the maximum; ValueError
  on an empty sequence.
\<close>

fun argmax_scan :: "pyfloat list \<Rightarrow> nat \<Rightarrow> nat \<Rightarrow> pyfloat \<Rightarrow> nat" where
  "argmax_scan [] i best_i best = best_i"
| "argmax_scan (x # xs) i best_i best =
     (if isnan best then best_i
      else if isnan x \<or> py_gt x best then argmax_scan xs (Suc i) i x
      else argmax_scan xs (Suc i) best_i best)"

definition np_argmax :: "pyfloat list \<Rightarrow> py_error + nat" where
  "np_argmax xs = (case xs of [] \<Rightarrow> Inl ValueError | x # rest \<Rightarrow> Inr (argmax_scan rest 1 0 x))"

text \<open>
  \<^verbatim>\<open>np.argsort\<close>: the indices in ascending order of the values, NaN last. NumPy leaves
  the order of equal values open; the model sorts by insertion, which keeps equal values
  in index order.
\<close>

definition float_lt :: "pyfloat \<Rightarrow> pyfloat \<Rightarrow> bool" where
  "float_lt a b \<longleftrightarrow> (isnan b \<and> \<not> isnan a) \<or> py_gt b a"

fun insert_index :: "pyfloat list \<Rightarrow> nat \<Rightarrow> nat list \<Rightarrow> nat list" where
  "insert_index xs i [] = [i]"
| "insert_index xs i (j # js) =
     (if float_lt (xs ! i) (xs ! j) then i # j # js else j # insert_index xs i js)"

definition np_argsort :: "pyfloat list \<Rightarrow> nat list" where
  "np_argsort xs = foldl (\<lambda>acc i. insert_index xs i acc) [] [0..<length xs]"

text \<open>
  One tournament of \<^verbatim>\<open>_select_parents\<close>: three distinct positions of the population,
  NaN and infinite fitness read as 0.0, the position of the first maximum wins.
\<close>

definition tournament ::
  "chromosome list \<Rightarrow> pyfloat list \<Rightarrow> rng \<Rightarrow> py_error + (chromosome \<times> rng)" where
  "tournament population fitnesses g =
     (case np_random_choice_noreplace (int (length population)) 3 g of
        Inl err \<Rightarrow> Inl err
      | Inr (idx, g') \<Rightarrow>
          if \<not> list_all (\<lambda>i. i < length fitnesses) idx then Inl IndexError
          else
            (let tournament_fitnesses =
                   map (\<lambda>i. let score = fitnesses ! i
                             in if isnan score \<or> isinf score then Fin 0 else score) idx
             in case np_argmax tournament_fitnesses of
                  Inl err \<Rightarrow> Inl err
                | Inr k \<Rightarrow> Inr (population ! (idx ! k), g')))"

definition select_parents ::
  "chromosome list \<Rightarrow> pyfloat list \<Rightarrow> rng \<Rightarrow> py_error + ((chromosome \<times> chromosome) \<times> rng)" where
  "select_parents population fitnesses g =
     (case tournament population fitnesses g of
        Inl err \<Rightarrow> Inl err
      | Inr (parent1, g1) \<Rightarrow>
          (case tournament population fitnesses g1 of
             Inl err \<Rightarrow> Inl err
           | Inr (parent2, g2) \<Rightarrow> Inr ((parent1, parent2), g2)))"

section \<open>Candidates, archetypes and fitness\<close>

record candidate =
  cand_name :: string
  technical_score :: pyfloat
  education_score :: pyfloat
  soft_skills_score :: pyfloat
  normalized_overall_score :: pyfloat

type_synonym dataframe = "candidate list"

record weightings_t =
  individual_quality :: pyfloat
  team_synergy :: pyfloat
  team_diversity :: pyfloat

record archetype =
  name :: string
  description :: string
  weightings :: weightings_t

text \<open>
  The attributes \<^verbatim>\<open>technical_scores\<close>, \<^verbatim>\<open>education_scores\<close>,
  \<^verbatim>\<open>soft_skills_scores\<close>, \<^verbatim>\<open>overall_scores\<close> and \<^verbatim>\<open>num_candidates\<close> of the
  optimizer. The code assigns the five together (in the constructor and in
  \<^verbatim>\<open>optimize\<close>), so the model keeps them in one record.
\<close>

record candidate_scores =
  technical_scores :: "pyfloat list"
  education_scores :: "pyfloat list"
  soft_skills_scores :: "pyfloat list"
  overall_scores :: "pyfloat list"
  num_candidates :: nat

text \<open>
  The skill coverage of \<^verbatim>\<open>_calculate_fitness\<close>:
  \<^verbatim>\<open>skill_matrix = np.column_stack((team_technical, team_education, team_soft_skills))\<close>,
  \<^verbatim>\<open>total_possible_skills = max(1, 3 * len(chromosome))\<close>,
  \<^verbatim>\<open>skill_coverage = len(set(np.where(skill_matrix > 0.1)[0])) / total_possible_skills\<close>.
  \<open>float_0_1\<close> is the double that the literal \<^verbatim>\<open>0.1\<close> denotes. \<open>np_where_rows\<close> is
  \<^verbatim>\<open>np.where(m > 0.1)[0]\<close>: the row index of every entry above the threshold, row by
  row. The quotient of the two integers is the exact one; Python rounds it to a double.
\<close>

definition float_0_1 :: pyfloat where
  "float_0_1 = Fin (3602879701896397 / 36028797018963968)"

definition gather :: "pyfloat list \<Rightarrow> chromosome \<Rightarrow> pyfloat list" where
  "gather scores chromosome = map (\<lambda>i. scores ! i) chromosome"

definition column_stack3 :: "pyfloat list \<Rightarrow> pyfloat list \<Rightarrow> pyfloat list \<Rightarrow> pyfloat list list" where
  "column_stack3 a b c = map (\<lambda>(x, y, z). [x, y, z]) (zip a (zip b c))"

fun np_where_rows :: "nat \<Rightarrow> pyfloat list list \<Rightarrow> nat list" where
  "np_where_rows i [] = []"
| "np_where_rows i (row # rows) =
     map (\<lambda>_. i) (filter (\<lambda>x. py_gt x float_0_1) row) @ np_where_rows (Suc i) rows"

definition skill_coverage :: "candidate_scores \<Rightarrow> chromosome \<Rightarrow> real" where
  "skill_coverage sc chromosome =
     (let team_technical = gather (technical_scores sc) chromosome;
          team_education = gather (education_scores sc) chromosome;
          team_soft_skills = gather (soft_skills_scores sc) chromosome;
          skill_matrix = column_stack3 team_technical team_education team_soft_skills;
          total_possible_skills = max 1 (3 * length chromosome)
      in real (length (remdups (np_where_rows 0 skill_matrix))) / real total_possible_skills)"

text \<open>
  The coverage as the specification words it: the number of (skill dimension, member)
  pairs whose score exceeds 0.1, out of \<open>3 \<times> team_size\<close>.
\<close>

definition skill_coverage_spec :: "candidate_scores \<Rightarrow> chromosome \<Rightarrow> real" where
  "skill_coverage_spec sc chromosome =
     real (length (filter (\<lambda>i. py_gt (technical_scores sc ! i) float_0_1) chromosome)
         + length (filter (\<lambda>i. py_gt (education_scores sc ! i) float_0_1) chromosome)
         + length (filter (\<lambda>i. py_gt (soft_skills_scores sc ! i) float_0_1) chromosome))
       / real (3 * length chromosome)"

text \<open>
  \<^verbatim>\<open>_calculate_fitness\<close>. The floating-point arithmetic between the gathering of the
  team's scores and the weighted sum (means, variances, the standard deviation, the
  bonus and the coverage) is a parameter \<open>W\<close>: it maps the four gathered arrays and the
  weightings to the float that the code calls \<^verbatim>\<open>fitness\<close> before its NaN check. What
  is modelled around it: indexing the score arrays by the chromosome raises IndexError on
  a gene outside the array, \<^verbatim>\<open>np.max\<close> of an empty team raises ValueError, NaN becomes
  0.0, and a chromosome with a repeated gene has its fitness halved.
\<close>

type_synonym float_eval =
  "pyfloat list \<Rightarrow> pyfloat list \<Rightarrow> pyfloat list \<Rightarrow> pyfloat list \<Rightarrow> weightings_t \<Rightarrow> pyfloat"

fun mul_half :: "pyfloat \<Rightarrow> pyfloat" where
  "mul_half (Fin r) = Fin (r * (1 / 2))"
| "mul_half PInf = PInf"
| "mul_half NInf = NInf"
| "mul_half NaN = NaN"

definition calculate_fitness ::
  "float_eval \<Rightarrow> candidate_scores \<Rightarrow> chromosome \<Rightarrow> archetype \<Rightarrow> py_error + pyfloat" where
  "calculate_fitness W sc chromosome a =
     (if \<not> list_all (\<lambda>i. i < length (technical_scores sc)) chromosome then Inl IndexError
      else if \<not> list_all (\<lambda>i. i < length (education_scores sc)) chromosome then Inl IndexError
      else if \<not> list_all (\<lambda>i. i < length (soft_skills_scores sc)) chromosome then Inl IndexError
      else if \<not> list_all (\<lambda>i. i < length (overall_scores sc)) chromosome then Inl IndexError
      else
        (let team_technical = gather (technical_scores sc) chromosome;
             team_education = gather (education_scores sc) chromosome;
             team_soft_skills = gather (soft_skills_scores sc) chromosome;
             team_overall = gather (overall_scores sc) chromosome
         in if chromosome = [] then Inl ValueError
            else
              (let fitness = W team_technical team_education team_soft_skills team_overall
                               (weightings a);
                   fitness1 = (if isnan fitness then Fin 0 else fitness);
                   fitness2 = (if length (remdups chromosome) < length chromosome
                               then mul_half fitness1 else fitness1)
               in Inr fitness2)))"

section \<open>The optimizer object\<close>

text \<open>
  The attributes of \<^verbatim>\<open>TeamOptimizer\<close>. \<open>scores\<close> is \<open>None\<close> while
  \<^verbatim>\<open>self.technical_scores is None\<close>. \<^verbatim>\<open>best_solutions\<close> and the result of
  \<^verbatim>\<open>optimize\<close> are dictionaries keyed by archetype name, kept in insertion order.
  The fields of \<open>optimization_result\<close> are the keys \<^verbatim>\<open>archetype\<close>, \<^verbatim>\<open>team\<close>,
  \<^verbatim>\<open>fitness\<close> and \<^verbatim>\<open>team_indices\<close> of the dictionary that
  \<^verbatim>\<open>optimize_for_archetype\<close> returns.
\<close>

record optimization_result =
  res_archetype :: archetype
  res_team :: dataframe
  res_fitness :: pyfloat
  res_team_indices :: "nat list"

record optimizer =
  candidates_file :: "string option"
  candidates_df :: "dataframe option"
  archetypes_file :: "string option"
  archetypes :: "archetype list option"
  output_dir :: "string option"
  population_size :: int
  generations :: int
  mutation_rate :: real
  crossover_rate :: real
  elitism_rate :: real
  team_size :: int
  scores :: "candidate_scores option"
  best_solutions :: "(string \<times> optimization_result) list"

text \<open>The files the optimizer can read: CSV files of candidates, JSON files of archetypes.\<close>

record filesystem =
  csv_files :: "string \<Rightarrow> dataframe option"
  json_files :: "string \<Rightarrow> archetype list option"

text \<open>Python's truth value of an optional string: \<open>None\<close> and the empty string are false.\<close>

fun truthy :: "string option \<Rightarrow> bool" where
  "truthy None = False"
| "truthy (Some s) = (s \<noteq> [])"

section \<open>The evolution loop\<close>

text \<open>
  Lines 341 to 347 of \<^verbatim>\<open>optimize_for_archetype\<close>: the fitness of every chromosome of
  the population, NaN and infinite values replaced by 0.0 before they are stored.
\<close>

fun evaluate_population ::
  "float_eval \<Rightarrow> candidate_scores \<Rightarrow> archetype \<Rightarrow> chromosome list \<Rightarrow> py_error + pyfloat list" where
  "evaluate_population W sc a [] = Inr []"
| "evaluate_population W sc a (chrom # rest) =
     (case calculate_fitness W sc chrom a of
        Inl err \<Rightarrow> Inl err
      | Inr fitness \<Rightarrow>
          (let fitness' = (if isnan fitness \<or> isinf fitness then Fin 0 else fitness)
           in case evaluate_population W sc a rest of
                Inl err \<Rightarrow> Inl err
              | Inr fitnesses \<Rightarrow> Inr (fitness' # fitnesses)))"

text \<open>
  \<^verbatim>\<open>int(x)\<close> of a float truncates towards zero. The product
  \<^verbatim>\<open>population_size * elitism_rate\<close> is taken exactly; Python rounds it to a double
  first. \<open>py_slice_from xs s\<close> is \<^verbatim>\<open>xs[s:]\<close>: a negative \<open>s\<close> counts from the end,
  and \<^verbatim>\<open>xs[-0:]\<close> is \<^verbatim>\<open>xs[0:]\<close>, the whole sequence.
\<close>

definition py_int :: "real \<Rightarrow> int" where
  "py_int x = (if x \<ge> 0 then \<lfloor>x\<rfloor> else \<lceil>x\<rceil>)"

definition py_slice_from :: "'a list \<Rightarrow> int \<Rightarrow> 'a list" where
  "py_slice_from xs s =
     (let n = int (length xs);
          start = (if s < 0 then max 0 (n + s) else min s n)
      in drop (nat start) xs)"

text \<open>
  The loop \<^verbatim>\<open>while len(next_population) < self.population_size\<close> of lines 364 to 378.
\<close>

function fill_offspring ::
  "optimizer \<Rightarrow> nat \<Rightarrow> chromosome list \<Rightarrow> pyfloat list \<Rightarrow> chromosome list \<Rightarrow> rng
     \<Rightarrow> py_error + (chromosome list \<times> rng)" where
  "fill_offspring self num_cand pop fitnesses next_population g =
     (if int (length next_population) < population_size self then
        (case select_parents pop fitnesses g of
           Inl err \<Rightarrow> Inl err
         | Inr ((parent1, parent2), g1) \<Rightarrow>
             (case crossover (crossover_rate self) parent1 parent2 g1 of
                Inl err \<Rightarrow> Inl err
              | Inr ((child1, child2), g2) \<Rightarrow>
                  (case mutate num_cand (mutation_rate self) child1 g2 of
                     Inl err \<Rightarrow> Inl err
                   | Inr (child1', g3) \<Rightarrow>
                       (case mutate num_cand (mutation_rate self) child2 g3 of
                          Inl err \<Rightarrow> Inl err
                        | Inr (child2', g4) \<Rightarrow>
                            fill_offspring self num_cand pop fitnesses
                              (if int (length (next_population @ [child1'])) < population_size self
                               then next_population @ [child1'] @ [child2']
                               else next_population @ [child1'])
                              g4))))
      else Inr (next_population, g))"
  by pat_completeness auto
termination
  by (relation "measure (\<lambda>(self, num_cand, pop, fitnesses, next_population, g).
                  nat (population_size self - int (length next_population)))") auto

declare fill_offspring.simps [simp del]

text \<open>Lines 355 to 378: elitism, then the offspring.\<close>

definition next_generation ::
  "optimizer \<Rightarrow> nat \<Rightarrow> chromosome list \<Rightarrow> pyfloat list \<Rightarrow> rng
     \<Rightarrow> py_error + (chromosome list \<times> rng)" where
  "next_generation self num_cand pop fitnesses g =
     (let elitism_count = py_int (real_of_int (population_size self) * elitism_rate self);
          elite_indices = py_slice_from (np_argsort fitnesses) (- elitism_count)
      in if \<not> list_all (\<lambda>i. i < length pop) elite_indices then Inl IndexError
         else
           (let elite_population = map (\<lambda>i. pop ! i) elite_indices;
                next_population = elite_population
            in fill_offspring self num_cand pop fitnesses next_population g))"

text \<open>The variables that one generation reads and writes.\<close>

record ga_state =
  population :: "chromosome list"
  best_chromosome :: "chromosome option"
  best_fitness :: pyfloat
  gen_rng :: rng

text \<open>One pass of the body of \<^verbatim>\<open>for generation in range(self.generations)\<close>.\<close>

definition generation_step ::
  "float_eval \<Rightarrow> optimizer \<Rightarrow> candidate_scores \<Rightarrow> archetype \<Rightarrow> ga_state \<Rightarrow> py_error + ga_state" where
  "generation_step W self sc a st =
     (case evaluate_population W sc a (population st) of
        Inl err \<Rightarrow> Inl err
      | Inr fitnesses \<Rightarrow>
          (case np_argmax fitnesses of
             Inl err \<Rightarrow> Inl err
           | Inr max_fitness_idx \<Rightarrow>
               (let improved = py_gt (fitnesses ! max_fitness_idx) (best_fitness st);
                    best_fitness' = (if improved then fitnesses ! max_fitness_idx
                                     else best_fitness st);
                    best_chromosome' = (if improved then Some (population st ! max_fitness_idx)
                                        else best_chromosome st)
                in case next_generation self (num_candidates sc) (population st) fitnesses
                          (gen_rng st) of
                     Inl err \<Rightarrow> Inl err
                   | Inr (next_population, g') \<Rightarrow>
                       Inr \<lparr>population = next_population, best_chromosome = best_chromosome',
                            best_fitness = best_fitness', gen_rng = g'\<rparr>)))"

fun evolve ::
  "float_eval \<Rightarrow> optimizer \<Rightarrow> candidate_scores \<Rightarrow> archetype \<Rightarrow> nat \<Rightarrow> ga_state
     \<Rightarrow> py_error + ga_state" where
  "evolve W self sc a 0 st = Inr st"
| "evolve W self sc a (Suc n) st =
     (case generation_step W self sc a st of
        Inl err \<Rightarrow> Inl err
      | Inr st' \<Rightarrow> evolve W self sc a n st')"

text \<open>
  \<^verbatim>\<open>optimize_for_archetype\<close>. The table is used only at the end, in
  \<^verbatim>\<open>candidates_df.iloc[best_chromosome]\<close>: AttributeError when the table is \<^verbatim>\<open>None\<close>,
  TypeError when no generation has run (\<^verbatim>\<open>best_chromosome\<close> is still \<^verbatim>\<open>None\<close>),
  IndexError on an index outside the table.

  On an optimizer whose score arrays are \<^verbatim>\<open>None\<close>, \<^verbatim>\<open>num_candidates\<close> is \<^verbatim>\<open>None\<close>
  as well: the first \<^verbatim>\<open>np.random.choice(None, ...)\<close> of the initialization raises
  ValueError; with no chromosome to draw, the population is empty and the first
  \<^verbatim>\<open>np.argmax([])\<close> raises ValueError; with no generation to run either, the code
  arrives at \<^verbatim>\<open>candidates_df.iloc[None]\<close>.
\<close>

definition optimize_for_archetype ::
  "float_eval \<Rightarrow> optimizer \<Rightarrow> archetype \<Rightarrow> rng \<Rightarrow> py_error + (optimization_result \<times> rng)" where
  "optimize_for_archetype W self a g =
     (case scores self of
        None \<Rightarrow>
          (if 0 < population_size self \<or> 0 < generations self then Inl ValueError
           else (case candidates_df self of
                   None \<Rightarrow> Inl AttributeError
                 | Some df \<Rightarrow> Inl TypeError))
      | Some sc \<Rightarrow>
          (case initialize_population (population_size self) (num_candidates sc)
                  (team_size self) g of
             Inl err \<Rightarrow> Inl err
           | Inr (pop, g1) \<Rightarrow>
               (case evolve W self sc a (nat (generations self))
                       \<lparr>population = pop, best_chromosome = None, best_fitness = NInf,
                        gen_rng = g1\<rparr> of
                  Inl err \<Rightarrow> Inl err
                | Inr st \<Rightarrow>
                    (case candidates_df self of
                       None \<Rightarrow> Inl AttributeError
                     | Some df \<Rightarrow>
                         (case best_chromosome st of
                            None \<Rightarrow> Inl TypeError
                          | Some best \<Rightarrow>
                              if \<not> list_all (\<lambda>i. i < length df) best then Inl IndexError
                              else
                                Inr (\<lparr>res_archetype = a,
                                      res_team = map (\<lambda>i. df ! i) best,
                                      res_fitness = (if isnan (best_fitness st) \<or> isinf (best_fitness st)
                                                     then Fin 0 else best_fitness st),
                                      res_team_indices = best\<rparr>,
                                     gen_rng st))))))"

section \<open>The orchestrator\<close>

text \<open>
  \<^verbatim>\<open>np.nan_to_num(x, nan=0.0)\<close>: NaN becomes 0.0; the infinities become the largest
  and the most negative finite double (the defaults of \<^verbatim>\<open>posinf\<close> and \<^verbatim>\<open>neginf\<close>).
\<close>

definition dbl_max :: real where
  "dbl_max = (2 - 1 / 2 ^ 52) * 2 ^ 1023"

fun nan_to_num :: "pyfloat \<Rightarrow> pyfloat" where
  "nan_to_num NaN = Fin 0"
| "nan_to_num PInf = Fin dbl_max"
| "nan_to_num NInf = Fin (- dbl_max)"
| "nan_to_num (Fin r) = Fin r"

text \<open>Lines 74 to 78 and 420 to 424: the score columns of the table as arrays.\<close>

definition extract_scores :: "dataframe \<Rightarrow> candidate_scores" where
  "extract_scores df =
     \<lparr>technical_scores = map technical_score df,
      education_scores = map education_score df,
      soft_skills_scores = map soft_skills_score df,
      overall_scores = map normalized_overall_score df,
      num_candidates = length df\<rparr>"

text \<open>Lines 427 to 430 of \<^verbatim>\<open>optimize\<close>.\<close>

definition sanitize_scores :: "candidate_scores \<Rightarrow> candidate_scores" where
  "sanitize_scores sc =
     sc\<lparr>technical_scores := map nan_to_num (technical_scores sc),
        education_scores := map nan_to_num (education_scores sc),
        soft_skills_scores := map nan_to_num (soft_skills_scores sc),
        overall_scores := map nan_to_num (overall_scores sc)\<rparr>"

text \<open>\<^verbatim>\<open>_load_archetypes\<close>: FileNotFoundError when the file does not exist.\<close>

definition load_archetypes :: "filesystem \<Rightarrow> optimizer \<Rightarrow> py_error + optimizer" where
  "load_archetypes fs self =
     (case archetypes_file self of
        None \<Rightarrow> Inl TypeError
      | Some path \<Rightarrow>
          (case json_files fs path of
             None \<Rightarrow> Inl FileNotFoundError
           | Some loaded \<Rightarrow> Inr (self\<lparr>archetypes := Some loaded\<rparr>)))"

text \<open>
  The constructor: the scores are extracted at once when a table is given, and the
  archetypes are loaded when only their file is given.
\<close>

definition init_optimizer ::
  "filesystem \<Rightarrow> string option \<Rightarrow> dataframe option \<Rightarrow> string option \<Rightarrow> archetype list option
     \<Rightarrow> int \<Rightarrow> int \<Rightarrow> real \<Rightarrow> real \<Rightarrow> real \<Rightarrow> int \<Rightarrow> string option \<Rightarrow> py_error + optimizer" where
  "init_optimizer fs cfile cdf afile archs psize gens mrate crate erate tsize odir =
     (let self = \<lparr>candidates_file = cfile, candidates_df = cdf, archetypes_file = afile,
                  archetypes = archs, output_dir = odir, population_size = psize,
                  generations = gens, mutation_rate = mrate, crossover_rate = crate,
                  elitism_rate = erate, team_size = tsize,
                  scores = map_option extract_scores cdf, best_solutions = []\<rparr>
      in if archs = None \<and> afile \<noteq> None then load_archetypes fs self else Inr self)"

text \<open>
  \<^verbatim>\<open>save_results\<close>: ValueError when there is no result to save. The files it writes
  are not modelled.
\<close>

definition save_results :: "optimizer \<Rightarrow> py_error + unit" where
  "save_results self = (if best_solutions self = [] then Inl ValueError else Inr ())"

text \<open>The loop \<^verbatim>\<open>for archetype in self.archetypes\<close> of \<^verbatim>\<open>optimize\<close>.\<close>

fun optimize_loop ::
  "float_eval \<Rightarrow> optimizer \<Rightarrow> archetype list \<Rightarrow> (string \<times> optimization_result) list \<Rightarrow> rng
     \<Rightarrow> py_error + ((string \<times> optimization_result) list \<times> rng)" where
  "optimize_loop W self [] results g = Inr (results, g)"
| "optimize_loop W self (a # rest) results g =
     (case optimize_for_archetype W self a g of
        Inl err \<Rightarrow> Inl err
      | Inr (result, g') \<Rightarrow> optimize_loop W self rest (AList.update (name a) result results) g')"

text \<open>Lines 412 to 416: the table is read from the file when it was not given.\<close>

definition load_candidates :: "filesystem \<Rightarrow> optimizer \<Rightarrow> py_error + optimizer" where
  "load_candidates fs self =
     (case candidates_df self of
        Some df \<Rightarrow> Inr self
      | None \<Rightarrow>
          (case candidates_file self of
             None \<Rightarrow> Inl ValueError
           | Some path \<Rightarrow>
               if path = [] then Inl ValueError
               else
                 (case csv_files fs path of
                    None \<Rightarrow> Inl FileNotFoundError
                  | Some df \<Rightarrow> Inr (self\<lparr>candidates_df := Some df\<rparr>))))"

text \<open>
  Lines 419 to 430: the score arrays are extracted from the table unless they are
  already present, and then passed through \<^verbatim>\<open>np.nan_to_num\<close>, in every call.
\<close>

definition prepare_scores :: "optimizer \<Rightarrow> optimizer" where
  "prepare_scores self =
     (let self2 = (case scores self of
                     None \<Rightarrow> self\<lparr>scores := map_option extract_scores (candidates_df self)\<rparr>
                   | Some sc \<Rightarrow> self)
      in self2\<lparr>scores := map_option sanitize_scores (scores self2)\<rparr>)"

text \<open>
  Lines 432 to 437: the archetypes are loaded from their file when none were given;
  with neither, ValueError.
\<close>

definition ensure_archetypes :: "filesystem \<Rightarrow> optimizer \<Rightarrow> py_error + optimizer" where
  "ensure_archetypes fs self =
     (if archetypes self = None
      then (if truthy (archetypes_file self) then load_archetypes fs self else Inl ValueError)
      else Inr self)"

text \<open>
  Lines 439 to 452: one run per archetype, the results stored in
  \<^verbatim>\<open>best_solutions\<close> and saved when an output directory is set.
\<close>

definition optimize_all ::
  "float_eval \<Rightarrow> optimizer \<Rightarrow> rng
     \<Rightarrow> py_error + ((string \<times> optimization_result) list \<times> optimizer \<times> rng)" where
  "optimize_all W self g =
     (case archetypes self of
        None \<Rightarrow> Inl TypeError
      | Some archs \<Rightarrow>
          (case optimize_loop W self archs [] g of
             Inl err \<Rightarrow> Inl err
           | Inr (results, g') \<Rightarrow>
               (let self5 = self\<lparr>best_solutions := results\<rparr>
                in if truthy (output_dir self5) then
                     (case save_results self5 of
                        Inl err \<Rightarrow> Inl err
                      | Inr u \<Rightarrow> Inr (results, self5, g'))
                   else Inr (results, self5, g'))))"

text \<open>
  \<^verbatim>\<open>optimize\<close>. It returns the result dictionary and the optimizer as the call
  leaves it.
\<close>

definition optimize ::
  "float_eval \<Rightarrow> filesystem \<Rightarrow> optimizer \<Rightarrow> rng
     \<Rightarrow> py_error + ((string \<times> optimization_result) list \<times> optimizer \<times> rng)" where
  "optimize W fs self g =
     (case load_candidates fs self of
        Inl err \<Rightarrow> Inl err
      | Inr self1 \<Rightarrow>
          (case ensure_archetypes fs (prepare_scores self1) of
             Inl err \<Rightarrow> Inl err
           | Inr self4 \<Rightarrow> optimize_all W self4 g))"

section \<open>Auxiliary definitions for the proofs\<close>

text \<open>
  What position \<open>j\<close> of the child holds once the filling loop has passed position \<open>i\<close>.
\<close>

definition fill_spec :: "nat \<Rightarrow> nat \<Rightarrow> nat \<Rightarrow> nat list \<Rightarrow> nat list \<Rightarrow> nat \<Rightarrow> nat" where
  "fill_spec i s e rem child j =
     (if j < i then child ! j else if j < s then rem ! j
      else if j \<le> e then child ! j else rem ! (j - (e + 1 - s)))"

text \<open>
  Concrete inputs on which the theorems are instantiated: a float evaluation that
  returns the first overall score of the team, an archetype, and an optimizer over a
  pool of one candidate asked for teams of two.
\<close>

definition demo_eval :: float_eval where
  "demo_eval tt te ts ov w = (case ov of [] \<Rightarrow> NaN | x # rest \<Rightarrow> x)"

definition demo_archetype :: archetype where
  "demo_archetype =
     \<lparr>name = ''core'', description = ''quality first'',
      weightings = \<lparr>individual_quality = Fin 1, team_synergy = Fin 0, team_diversity = Fin 0\<rparr>\<rparr>"

definition demo_scores :: candidate_scores where
  "demo_scores =
     \<lparr>technical_scores = [Fin 0], education_scores = [Fin 0], soft_skills_scores = [Fin 0],
      overall_scores = [Fin 0], num_candidates = 1\<rparr>"

definition demo_table :: dataframe where
  "demo_table =
     [\<lparr>cand_name = ''a'', technical_score = Fin 0, education_score = Fin 0,
       soft_skills_score = Fin 0, normalized_overall_score = Fin 0\<rparr>]"

definition demo_optimizer :: optimizer where
  "demo_optimizer =
     \<lparr>candidates_file = None, candidates_df = Some demo_table,
      archetypes_file = None, archetypes = Some [demo_archetype], output_dir = None,
      population_size = 2, generations = 1, mutation_rate = 1 / 10, crossover_rate = 4 / 5,
      elitism_rate = 1 / 10, team_size = 2,
      scores = Some demo_scores, best_solutions = []\<rparr>"

text \<open>
  Two candidates for the skill coverage: the first scores 0.5 on every skill, the second
  0.0.
\<close>

definition c2_scores :: candidate_scores where
  "c2_scores =
     \<lparr>technical_scores = [Fin (1 / 2), Fin 0], education_scores = [Fin (1 / 2), Fin 0],
      soft_skills_scores = [Fin (1 / 2), Fin 0], overall_scores = [Fin (1 / 2), Fin 0],
      num_candidates = 2\<rparr>"

text \<open>
  A run of two generations over a pool of three candidates whose overall scores are
  \<open>+Inf\<close>, NaN and 0.5, with teams of one, a population of three and an elitism rate
  of 1, so that every generation keeps the whole population.
\<close>

definition run_scores :: candidate_scores where
  "run_scores =
     \<lparr>technical_scores = [Fin 0, Fin 0, Fin 0], education_scores = [Fin 0, Fin 0, Fin 0],
      soft_skills_scores = [Fin 0, Fin 0, Fin 0], overall_scores = [PInf, NaN, Fin (1 / 2)],
      num_candidates = 3\<rparr>"

definition run_table :: dataframe where
  "run_table =
     [\<lparr>cand_name = ''a'', technical_score = Fin 0, education_score = Fin 0,
       soft_skills_score = Fin 0, normalized_overall_score = PInf\<rparr>,
      \<lparr>cand_name = ''b'', technical_score = Fin 0, education_score = Fin 0,
       soft_skills_score = Fin 0, normalized_overall_score = NaN\<rparr>,
      \<lparr>cand_name = ''c'', technical_score = Fin 0, education_score = Fin 0,
       soft_skills_score = Fin 0, normalized_overall_score = Fin (1 / 2)\<rparr>]"

definition run_optimizer :: optimizer where
  "run_optimizer =
     \<lparr>candidates_file = None, candidates_df = Some run_table,
      archetypes_file = None, archetypes = Some [demo_archetype], output_dir = None,
      population_size = 3, generations = 2, mutation_rate = 1 / 10, crossover_rate = 4 / 5,
      elitism_rate = 1, team_size = 1,
      scores = Some run_scores, best_solutions = []\<rparr>"

definition run_population :: "chromosome list" where
  "run_population = [[0], [1], [2]]"

definition run_start :: ga_state where
  "run_start = \<lparr>population = run_population, best_chromosome = None, best_fitness = NInf,
                gen_rng = []\<rparr>"

definition run_best :: ga_state where
  "run_best = \<lparr>population = run_population, best_chromosome = Some [2],
               best_fitness = Fin (1 / 2), gen_rng = []\<rparr>"

text \<open>
  The values the best fitness takes during a run: the initial \<open>-Inf\<close> or a finite
  number.
\<close>

definition tracked :: "pyfloat \<Rightarrow> bool" where
  "tracked b \<longleftrightarrow> b = NInf \<or> (\<exists>r. b = Fin r)"

text \<open>An optimizer with a population of three and an elitism rate of 0.\<close>

definition no_elitism_optimizer :: optimizer where
  "no_elitism_optimizer =
     \<lparr>candidates_file = None, candidates_df = Some run_table,
      archetypes_file = None, archetypes = Some [demo_archetype], output_dir = None,
      population_size = 3, generations = 2, mutation_rate = 1 / 10, crossover_rate = 4 / 5,
      elitism_rate = 0, team_size = 1,
      scores = Some run_scores, best_solutions = []\<rparr>"

text \<open>
  A file system with no file, and the optimizer of the run above with the infinite score
  of the first candidate replaced by 0.0; what \<^verbatim>\<open>optimize\<close> returns on it with the
  random tape \<open>[0, 1, 2]\<close>, and the optimizer as that call leaves it.
\<close>

definition empty_fs :: filesystem where
  "empty_fs = \<lparr>csv_files = (\<lambda>path. None), json_files = (\<lambda>path. None)\<rparr>"

definition zeroed_scores :: candidate_scores where
  "zeroed_scores = run_scores\<lparr>overall_scores := [Fin 0, NaN, Fin (1 / 2)]\<rparr>"

definition zeroed_optimizer :: optimizer where
  "zeroed_optimizer = run_optimizer\<lparr>scores := Some zeroed_scores\<rparr>"

definition zeroed_results :: "(string \<times> optimization_result) list" where
  "zeroed_results =
     [(''core'', \<lparr>res_archetype = demo_archetype, res_team = [run_table ! 2],
                  res_fitness = Fin (1 / 2), res_team_indices = [2]\<rparr>)]"

definition zeroed_after :: optimizer where
  "zeroed_after = zeroed_optimizer\<lparr>scores := Some (sanitize_scores zeroed_scores),
                                   best_solutions := zeroed_results\<rparr>"

text \<open>
  An optimizer given an empty table, an empty list of archetypes and no output
  directory.
\<close>

definition empty_optimizer :: optimizer where
  "empty_optimizer =
     \<lparr>candidates_file = None, candidates_df = Some [],
      archetypes_file = None, archetypes = Some [], output_dir = None,
      population_size = 975, generations = 50, mutation_rate = 1 / 10, crossover_rate = 4 / 5,
      elitism_rate = 1 / 10, team_size = 5,
      scores = Some (extract_scores []), best_solutions = []\<rparr>"

text \<open>
  An optimizer built from files, as \<^verbatim>\<open>optimize_team\<close> of \<^verbatim>\<open>src/main.py\<close> builds it: the
  table is not read before \<^verbatim>\<open>optimize\<close> is called, the archetypes are read by the
  constructor, the output directory is the default one. The file of candidates holds
  the table of the run above with the infinite score replaced by 0.0; a second file
  holds a table with no row. Then the optimizer once the table is read, once the arrays
  are sanitized, and as \<^verbatim>\<open>optimize\<close> leaves it.
\<close>

definition zeroed_table :: dataframe where
  "zeroed_table = run_table[0 := (run_table ! 0)\<lparr>normalized_overall_score := Fin 0\<rparr>]"

definition file_fs :: filesystem where
  "file_fs =
     \<lparr>csv_files = (\<lambda>path. if path = ''candidates.csv'' then Some zeroed_table
                          else if path = ''nobody.csv'' then Some [] else None),
      json_files = (\<lambda>path. if path = ''archetypes.json'' then Some [demo_archetype] else None)\<rparr>"

definition file_optimizer :: optimizer where
  "file_optimizer =
     \<lparr>candidates_file = Some ''candidates.csv'', candidates_df = None,
      archetypes_file = Some ''archetypes.json'', archetypes = Some [demo_archetype],
      output_dir = Some ''data/output/optimized_teams'',
      population_size = 3, generations = 2, mutation_rate = 1 / 10, crossover_rate = 4 / 5,
      elitism_rate = 1, team_size = 1,
      scores = None, best_solutions = []\<rparr>"

definition file_loaded :: optimizer where
  "file_loaded = file_optimizer\<lparr>candidates_df := Some zeroed_table\<rparr>"

definition file_sanitized :: optimizer where
  "file_sanitized = file_loaded\<lparr>scores := Some (sanitize_scores (extract_scores zeroed_table))\<rparr>"

definition file_after :: optimizer where
  "file_after = file_sanitized\<lparr>best_solutions := zeroed_results\<rparr>"

text \<open>
  The same optimizer pointed at the file with no row, and that one with an empty list of
  archetypes; each once the table is read.
\<close>

definition nobody_optimizer :: optimizer where
  "nobody_optimizer = file_optimizer\<lparr>candidates_file := Some ''nobody.csv''\<rparr>"

definition nobody_loaded :: optimizer where
  "nobody_loaded = nobody_optimizer\<lparr>candidates_df := Some []\<rparr>"

definition aimless_optimizer :: optimizer where
  "aimless_optimizer = nobody_optimizer\<lparr>archetypes := Some []\<rparr>"

definition aimless_loaded :: optimizer where
  "aimless_loaded = aimless_optimizer\<lparr>candidates_df := Some []\<rparr>"

section \<open>Evaluation of the random source\<close>

lemma random_random_Nil: "random_random [] = (0, [])"
  by (simp add: random_random_def)

lemma random_random_Cons: "random_random (k # g) = (real (k mod 2 ^ 53) / 2 ^ 53, g)"
  by (simp add: random_random_def)

lemma random_randint_Cons:
  "random_randint a b (k # g) =
     (if b < a then Inl ValueError else Inr (a + int (k mod nat (b - a + 1)), g))"
  by (simp add: random_randint_def)

lemma random_randint_Nil:
  "random_randint a b [] = (if b < a then Inl ValueError else Inr (a, []))"
  by (simp add: random_randint_def)

section \<open>Crossover closure\<close>

lemma fill_outside_length:
  "fill_outside ps s e rem child idx = Inr c \<Longrightarrow> length c = length child"
  by (induction ps arbitrary: child idx) (auto split: if_splits)

lemma fill_outside_upt:
  assumes "length child = n" "s \<le> e" "e < n" "i \<le> n"
    and "idx = (if i \<le> s then i else if i \<le> e then s else i - (e + 1 - s))"
    and "n - (e + 1 - s) \<le> length rem"
  shows "\<exists>c. fill_outside [i..<n] s e rem child idx = Inr c \<and> length c = n \<and>
           (\<forall>j<n. c ! j = fill_spec i s e rem child j)"
  using assms
proof (induction "n - i" arbitrary: i child idx)
  case 0
  then show ?case by (simp add: fill_spec_def)
next
  case (Suc k)
  then have lt: "i < n" by simp
  then have upt: "[i..<n] = i # [Suc i..<n]" by (simp add: upt_conv_Cons)
  have k: "k = n - Suc i" using Suc.hyps(2) by simp
  have len: "length child = n" by (rule Suc.prems(1))
  have idx: "idx = (if i \<le> s then i else if i \<le> e then s else i - (e + 1 - s))"
    by (rule Suc.prems(5))
  note se = \<open>s \<le> e\<close> \<open>e < n\<close>
  show ?case
  proof (cases "i < s \<or> i > e")
    case True
    have idxlt: "idx < length rem" using idx True lt se Suc.prems(6) by (auto split: if_splits)
    let ?child = "child[i := rem ! idx]"
    have idx': "idx + 1 = (if Suc i \<le> s then Suc i else if Suc i \<le> e then s else Suc i - (e + 1 - s))"
      using idx True se by (auto split: if_splits)
    have "\<exists>c. fill_outside [Suc i..<n] s e rem ?child (idx + 1) = Inr c \<and> length c = n \<and>
           (\<forall>j<n. c ! j = fill_spec (Suc i) s e rem ?child j)"
      by (rule Suc.hyps(1)[OF k _ se _ idx' Suc.prems(6)]) (use len lt in simp_all)
    then obtain c where c: "fill_outside [Suc i..<n] s e rem ?child (idx + 1) = Inr c" "length c = n"
        "\<And>j. j < n \<Longrightarrow> c ! j = fill_spec (Suc i) s e rem ?child j" by blast
    have run: "fill_outside [i..<n] s e rem child idx = Inr c"
      using c(1) True idxlt lt len by (simp add: upt)
    have "c ! j = fill_spec i s e rem child j" if j: "j < n" for j
    proof (cases "j = i")
      case True
      then have "c ! j = rem ! idx" using c(3)[OF j] len lt by (simp add: fill_spec_def)
      moreover have "fill_spec i s e rem child i = rem ! idx"
        using idx \<open>i < s \<or> i > e\<close> se by (auto simp: fill_spec_def)
      ultimately show ?thesis using True by simp
    next
      case False
      then show ?thesis using c(3)[OF j] by (auto simp: fill_spec_def)
    qed
    then show ?thesis using run c(2) by blast
  next
    case False
    then have idxs: "idx = s" using idx by auto
    have idx': "idx = (if Suc i \<le> s then Suc i else if Suc i \<le> e then s else Suc i - (e + 1 - s))"
      using idxs False by auto
    have "\<exists>c. fill_outside [Suc i..<n] s e rem child idx = Inr c \<and> length c = n \<and>
           (\<forall>j<n. c ! j = fill_spec (Suc i) s e rem child j)"
      by (rule Suc.hyps(1)[OF k len se _ idx' Suc.prems(6)]) (use lt in simp)
    then obtain c where c: "fill_outside [Suc i..<n] s e rem child idx = Inr c" "length c = n"
        "\<And>j. j < n \<Longrightarrow> c ! j = fill_spec (Suc i) s e rem child j" by blast
    have run: "fill_outside [i..<n] s e rem child idx = Inr c"
      using c(1) False by (simp add: upt)
    have "c ! j = fill_spec i s e rem child j" if j: "j < n" for j
      using c(3)[OF j] False by (auto simp: fill_spec_def)
    then show ?thesis using run c(2) by blast
  qed
qed


lemma fill_outside_result:
  assumes len: "length child = n" and se: "s \<le> e" "e < n"
    and rem: "n - (e + 1 - s) \<le> length rem"
  shows "fill_outside [0..<n] s e rem child 0 =
           Inr (take s rem @ py_slice child s (e + 1) @ take (n - (e + 1)) (drop s rem))"
proof -
  obtain c where c: "fill_outside [0..<n] s e rem child 0 = Inr c" "length c = n"
      "\<And>j. j < n \<Longrightarrow> c ! j = fill_spec 0 s e rem child j"
    using fill_outside_upt[OF len se, of 0 0 rem] rem by auto
  define A where "A = take s rem"
  define B where "B = py_slice child s (e + 1)"
  define C where "C = take (n - (e + 1)) (drop s rem)"
  have lA: "length A = s" using se rem by (simp add: A_def)
  have lB: "length B = e + 1 - s" using se len by (simp add: B_def py_slice_def)
  have lC: "length C = n - (e + 1)" using se rem by (simp add: C_def)
  have lr: "length (A @ B @ C) = n" using lA lB lC se by simp
  have "c ! j = (A @ B @ C) ! j" if j: "j < n" for j
  proof -
    consider "j < s" | "s \<le> j" "j \<le> e" | "e < j" by linarith
    then show ?thesis
    proof cases
      case 1
      then have "(A @ B @ C) ! j = rem ! j" using lA by (simp add: nth_append A_def)
      then show ?thesis using c(3)[OF j] 1 by (simp add: fill_spec_def)
    next
      case 2
      then have js: "j - s < length B" using lB by arith
      have "(A @ B @ C) ! j = (B @ C) ! (j - s)" using 2 lA by (simp add: nth_append)
      also have "\<dots> = B ! (j - s)" using js by (simp add: nth_append)
      also have "\<dots> = child ! j" using 2 js len se lB by (simp add: B_def py_slice_def)
      finally show ?thesis using c(3)[OF j] 2 by (simp add: fill_spec_def)
    next
      case 3
      then have js: "\<not> j - s < length B" "\<not> j < length A" using lA lB se by arith+
      have jc: "j - s - length B = j - (e + 1)" using lB 3 se by arith
      have "(A @ B @ C) ! j = (B @ C) ! (j - s)" using js lA by (simp add: nth_append)
      also have "\<dots> = C ! (j - (e + 1))" using js jc by (simp add: nth_append)
      also have "\<dots> = rem ! (s + (j - (e + 1)))" using 3 j se rem by (simp add: C_def)
      also have "s + (j - (e + 1)) = j - (e + 1 - s)" using 3 se by simp
      finally show ?thesis using c(3)[OF j] 3 se by (simp add: fill_spec_def)
    qed
  qed
  then have "c = A @ B @ C" using c(2) lr by (intro nth_equalityI) simp_all
  then show ?thesis using c(1) by (simp add: A_def B_def C_def)
qed

lemma filter_mem_length_le:
  assumes "distinct xs"
  shows "length (filter (\<lambda>x. x \<in> set seg) xs) \<le> length seg"
proof -
  have "distinct (filter (\<lambda>x. x \<in> set seg) xs)" using assms by simp
  then have "length (filter (\<lambda>x. x \<in> set seg) xs) = card (set (filter (\<lambda>x. x \<in> set seg) xs))"
    by (metis distinct_card)
  also have "\<dots> \<le> card (set seg)" by (rule card_mono) auto
  also have "\<dots> \<le> length seg" by (rule card_length)
  finally show ?thesis .
qed

lemma remaining_length:
  assumes "distinct other" "length other = n" "s \<le> e" "e < n" "length parent = n"
  shows "n - (e + 1 - s) \<le> length (filter (\<lambda>item. item \<notin> set (py_slice parent s (e + 1))) other)"
proof -
  let ?seg = "py_slice parent s (e + 1)"
  have "length (filter (\<lambda>x. x \<in> set ?seg) other) + length (filter (\<lambda>x. x \<notin> set ?seg) other) = n"
    using sum_length_filter_compl[of "\<lambda>x. x \<in> set ?seg" other] assms(2) by simp
  moreover have "length (filter (\<lambda>x. x \<in> set ?seg) other) \<le> length ?seg"
    by (rule filter_mem_length_le[OF assms(1)])
  moreover have "length ?seg = e + 1 - s" using assms by (simp add: py_slice_def)
  ultimately show ?thesis by linarith
qed

lemma child_valid:
  assumes dp: "distinct parent" and dother: "distinct other"
    and len: "length parent = n" "length other = n" and se: "s \<le> e" "e < n"
  defines "rem \<equiv> filter (\<lambda>item. item \<notin> set (py_slice parent s (e + 1))) other"
  shows "\<exists>c. fill_outside [0..<n] s e rem parent 0 = Inr c \<and> length c = n \<and> distinct c \<and>
           set c \<subseteq> set parent \<union> set other"
proof -
  let ?seg = "py_slice parent s (e + 1)"
  let ?c = "take s rem @ ?seg @ take (n - (e + 1)) (drop s rem)"
  have reml: "n - (e + 1 - s) \<le> length rem"
    unfolding rem_def by (rule remaining_length[OF dother len(2) se len(1)])
  have run: "fill_outside [0..<n] s e rem parent 0 = Inr ?c"
    by (rule fill_outside_result[OF len(1) se reml])
  have lc: "length ?c = n" using len se reml by (simp add: py_slice_def)
  have drem: "distinct rem" unfolding rem_def using dother by simp
  have dseg: "distinct ?seg" using dp by (simp add: py_slice_def)
  have disj: "set rem \<inter> set ?seg = {}" unfolding rem_def by auto
  have sub1: "set (take s rem) \<subseteq> set rem" by (rule set_take_subset)
  have sub2: "set (take (n - (e + 1)) (drop s rem)) \<subseteq> set rem"
    by (meson set_take_subset set_drop_subset subset_trans)
  have "distinct (take s rem @ take (n - (e + 1)) (drop s rem))"
    using drem by (metis distinct_take take_add)
  then have dc: "distinct ?c" using dseg disj sub1 sub2 by auto
  have "set rem \<subseteq> set other" unfolding rem_def by auto
  moreover have "set ?seg \<subseteq> set parent"
    unfolding py_slice_def by (meson set_take_subset set_drop_subset subset_trans)
  ultimately have "set ?c \<subseteq> set parent \<union> set other" using sub1 sub2 by auto
  then show ?thesis using run lc dc by blast
qed


lemma random_randint_range:
  assumes "a \<le> b"
  shows "\<exists>r g'. random_randint a b g = Inr (r, g') \<and> a \<le> r \<and> r \<le> b"
proof -
  obtain k g' where d: "draw g = (k, g')" by (cases "draw g")
  have pos: "0 < nat (b - a + 1)" using assms by simp
  have "k mod nat (b - a + 1) < nat (b - a + 1)" using pos by simp
  then have "int (k mod nat (b - a + 1)) < int (nat (b - a + 1))" by (simp only: of_nat_less_iff)
  also have "int (nat (b - a + 1)) = b - a + 1" using assms by simp
  finally have "int (k mod nat (b - a + 1)) < b - a + 1" .
  then show ?thesis using assms d by (simp add: random_randint_def)
qed

lemma random_randint_empty: "b < a \<Longrightarrow> random_randint a b g = Inl ValueError"
  by (simp add: random_randint_def)

lemma crossover_copy:
  assumes "cr < fst (random_random g)"
  shows "crossover cr parent1 parent2 g = Inr ((parent1, parent2), snd (random_random g))"
proof -
  obtain u g1 where rr: "random_random g = (u, g1)" by (cases "random_random g")
  then show ?thesis using assms by (simp add: crossover_def)
qed

lemma crossover_short:
  assumes "\<not> cr < fst (random_random g)" "length parent1 < 2"
  shows "crossover cr parent1 parent2 g = Inl ValueError"
proof -
  obtain u g1 where rr: "random_random g = (u, g1)" by (cases "random_random g")
  have "random_randint 0 (int (length parent1) - 2) g1 = Inl ValueError"
    using assms(2) by (intro random_randint_empty) simp
  then show ?thesis using assms(1) rr by (simp add: crossover_def)
qed

lemma crossover_segment:
  assumes br: "\<not> cr < fst (random_random g)"
    and v1: "valid_chromosome N tsize parent1" and v2: "valid_chromosome N tsize parent2"
    and ts: "2 \<le> tsize"
  shows "\<exists>child1 child2 g'. crossover cr parent1 parent2 g = Inr ((child1, child2), g') \<and>
           valid_chromosome N tsize child1 \<and> valid_chromosome N tsize child2 \<and>
           set child1 \<subseteq> set parent1 \<union> set parent2 \<and> set child2 \<subseteq> set parent1 \<union> set parent2"
proof -
  obtain u g1 where rr: "random_random g = (u, g1)" by (cases "random_random g")
  have l1: "length parent1 = tsize" and l2: "length parent2 = tsize"
    and d1: "distinct parent1" and d2: "distinct parent2"
    and r1: "\<forall>x\<in>set parent1. x < N" and r2: "\<forall>x\<in>set parent2. x < N"
    using v1 v2 by (simp_all add: valid_chromosome_def list_all_iff)
  obtain start g2 where st: "random_randint 0 (int tsize - 2) g1 = Inr (start, g2)"
      "0 \<le> start" "start \<le> int tsize - 2"
    using random_randint_range[of 0 "int tsize - 2" g1] ts by auto
  obtain end_idx g3 where en: "random_randint (start + 1) (int tsize - 1) g2 = Inr (end_idx, g3)"
      "start + 1 \<le> end_idx" "end_idx \<le> int tsize - 1"
    using random_randint_range[of "start + 1" "int tsize - 1" g2] st(3) by auto
  define s where "s = nat start"
  define e where "e = nat end_idx"
  have se: "s \<le> e" "e < tsize" using st en by (auto simp: s_def e_def)
  define rem1 where "rem1 = filter (\<lambda>item. item \<notin> set (py_slice parent1 s (e + 1))) parent2"
  define rem2 where "rem2 = filter (\<lambda>item. item \<notin> set (py_slice parent2 s (e + 1))) parent1"
  obtain c1 where c1: "fill_outside [0..<tsize] s e rem1 parent1 0 = Inr c1" "length c1 = tsize"
      "distinct c1" "set c1 \<subseteq> set parent1 \<union> set parent2"
    using child_valid[OF d1 d2 l1 l2 se] unfolding rem1_def by blast
  obtain c2 where c2: "fill_outside [0..<tsize] s e rem2 parent2 0 = Inr c2" "length c2 = tsize"
      "distinct c2" "set c2 \<subseteq> set parent2 \<union> set parent1"
    using child_valid[OF d2 d1 l2 l1 se] unfolding rem2_def by blast
  have run: "crossover cr parent1 parent2 g = Inr ((c1, c2), g3)"
    using br rr st(1) en(1) c1(1) c2(1) l1
    by (simp add: crossover_def Let_def s_def e_def rem1_def rem2_def)
  have "valid_chromosome N tsize c1" "valid_chromosome N tsize c2"
    using c1 c2 r1 r2 by (auto simp: valid_chromosome_def list_all_iff)
  then show ?thesis using run c1(4) c2(4) by blast
qed

text \<open>
  Claim C4. For valid parents of the same team size, \<^verbatim>\<open>_crossover\<close> returns two valid
  chromosomes (same length, pairwise distinct genes, genes of the pool) whose genes all
  occur in one of the parents, in the copy branch (where the children are the parents)
  and in the segment branch alike. The only case in which it returns nothing is the
  segment branch on a team of fewer than two members.
\<close>

theorem crossover_closure:
  assumes "valid_chromosome N tsize parent1" and "valid_chromosome N tsize parent2"
  shows "case crossover cr parent1 parent2 g of
           Inl err \<Rightarrow> tsize < 2 \<and> \<not> cr < fst (random_random g)
         | Inr ((child1, child2), g') \<Rightarrow>
             valid_chromosome N tsize child1 \<and> valid_chromosome N tsize child2 \<and>
             set child1 \<subseteq> set parent1 \<union> set parent2 \<and>
             set child2 \<subseteq> set parent1 \<union> set parent2 \<and>
             (cr < fst (random_random g) \<longrightarrow> child1 = parent1 \<and> child2 = parent2)"
proof (cases "cr < fst (random_random g)")
  case True
  then show ?thesis using assms by (simp add: crossover_copy)
next
  case br: False
  show ?thesis
  proof (cases "2 \<le> tsize")
    case True
    then show ?thesis using crossover_segment[OF br assms True] br by auto
  next
    case False
    then have "length parent1 < 2" using assms(1) by (simp add: valid_chromosome_def)
    then have "crossover cr parent1 parent2 g = Inl ValueError"
      by (rule crossover_short[OF br])
    then show ?thesis using br False by simp
  qed
qed

theorem crossover_closure_witness:
  "valid_chromosome 8 4 [0, 1, 2, 7] \<and> valid_chromosome 8 4 [2, 3, 4, 1] \<and>
   crossover (4 / 5) [0, 1, 2, 7] [2, 3, 4, 1] [0, 1, 0] = Inr (([3, 1, 2, 4], [0, 3, 4, 1]), []) \<and>
   valid_chromosome 8 4 [3, 1, 2, 4] \<and> valid_chromosome 8 4 [0, 3, 4, 1]"
proof -
  have v: "valid_chromosome 8 4 [0, 1, 2, 7]" "valid_chromosome 8 4 [2, 3, 4, 1]"
    by (simp_all add: valid_chromosome_def)
  have run: "crossover (4 / 5) [0, 1, 2, 7] [2, 3, 4, 1] [0, 1, 0] = Inr (([3, 1, 2, 4], [0, 3, 4, 1]), [])"
    by (simp add: crossover_def random_random_Cons random_randint_Cons py_slice_def Let_def)
  show ?thesis
    using crossover_closure[OF v, of "4 / 5" "[0, 1, 0]"] v run by simp
qed

section \<open>Crossover on a team of one\<close>

text \<open>
  Claim C9. When the team size is 1 and the probability draw takes the segment branch,
  \<^verbatim>\<open>_crossover\<close> raises: \<^verbatim>\<open>random.randint(0, size - 2)\<close> is asked for a number of
  the empty range \<open>[0, -1]\<close>. For valid parents and a crossover rate that is not
  negative, crossover returns on every random tape exactly when the team has at least
  two members.
\<close>

theorem crossover_total_iff:
  assumes "valid_chromosome N tsize parent1" and "valid_chromosome N tsize parent2"
    and "0 \<le> cr"
  shows "((\<forall>g. \<exists>r. crossover cr parent1 parent2 g = Inr r) \<longleftrightarrow> 2 \<le> tsize) \<and>
         (\<forall>g. tsize = 1 \<and> \<not> cr < fst (random_random g) \<longrightarrow>
               crossover cr parent1 parent2 g = Inl ValueError
               \<and> random_randint 0 (int tsize - 2) (snd (random_random g)) = Inl ValueError)"
proof -
  have len: "length parent1 = tsize" using assms(1) by (simp add: valid_chromosome_def)
  have total: "\<exists>r. crossover cr parent1 parent2 g = Inr r" if "2 \<le> tsize" for g
  proof (cases "cr < fst (random_random g)")
    case True
    then show ?thesis by (simp add: crossover_copy)
  next
    case False
    then show ?thesis using crossover_segment[OF False assms(1,2) that] by blast
  qed
  have fails: "crossover cr parent1 parent2 [] = Inl ValueError" if "\<not> 2 \<le> tsize"
  proof -
    have "\<not> cr < fst (random_random [])" using assms(3) by (simp add: random_random_Nil)
    moreover have "length parent1 < 2" using that len by simp
    ultimately show ?thesis by (rule crossover_short)
  qed
  have iff: "(\<forall>g. \<exists>r. crossover cr parent1 parent2 g = Inr r) \<longleftrightarrow> 2 \<le> tsize"
  proof
    assume a: "\<forall>g. \<exists>r. crossover cr parent1 parent2 g = Inr r"
    show "2 \<le> tsize"
    proof (rule ccontr)
      assume "\<not> 2 \<le> tsize"
      then have "crossover cr parent1 parent2 [] = Inl ValueError" by (rule fails)
      then show False using a by (metis sum.distinct(1))
    qed
  next
    assume "2 \<le> tsize"
    then show "\<forall>g. \<exists>r. crossover cr parent1 parent2 g = Inr r" using total by blast
  qed
  have one: "crossover cr parent1 parent2 g = Inl ValueError
               \<and> random_randint 0 (int tsize - 2) (snd (random_random g)) = Inl ValueError"
    if "tsize = 1" "\<not> cr < fst (random_random g)" for g
  proof -
    have "length parent1 < 2" using that(1) len by simp
    then have "crossover cr parent1 parent2 g = Inl ValueError"
      using that(2) by (intro crossover_short)
    moreover have "random_randint 0 (int tsize - 2) (snd (random_random g)) = Inl ValueError"
      using that(1) by (intro random_randint_empty) simp
    ultimately show ?thesis by simp
  qed
  show ?thesis using iff one by blast
qed

theorem crossover_total_iff_witness:
  "valid_chromosome 2 1 [0] \<and> valid_chromosome 2 1 [1] \<and> (0::real) \<le> 4 / 5 \<and>
   \<not> (4 / 5 < fst (random_random [])) \<and>
   crossover (4 / 5) [0] [1] [] = Inl ValueError"
proof -
  have v: "valid_chromosome 2 1 [0]" "valid_chromosome 2 1 [1]"
    by (simp_all add: valid_chromosome_def)
  have r: "(0::real) \<le> 4 / 5" by simp
  have br: "\<not> (4 / 5 < fst (random_random []))" by (simp add: random_random_Nil)
  show ?thesis using crossover_total_iff[OF v r] v br by simp
qed

section \<open>Mutation closure\<close>

lemma setdiff1d_upt: "setdiff1d [0..<N] m = filter (\<lambda>x. x \<notin> set m) [0..<N]"
proof -
  have "remdups [0..<N] = [0..<N]" by (simp add: distinct_remdups_id)
  moreover have "sort [0..<N] = [0..<N]" by (simp add: sorted_sort_id)
  ultimately show ?thesis by (simp add: setdiff1d_def)
qed

lemma set_setdiff1d: "set (setdiff1d [0..<N] m) = {0..<N} - set m"
  by (auto simp: setdiff1d_upt)

lemma np_random_choice_mem:
  assumes "arr \<noteq> []"
  shows "\<exists>x g'. np_random_choice arr g = Inr (x, g') \<and> x \<in> set arr"
proof -
  obtain k g' where d: "draw g = (k, g')" by (cases "draw g")
  have "k mod length arr < length arr" using assms by simp
  then have "arr ! (k mod length arr) \<in> set arr" by (rule nth_mem)
  then show ?thesis using assms d by (simp add: np_random_choice_def)
qed

lemma full_team:
  assumes "valid_chromosome N N m"
  shows "setdiff1d [0..<N] m = []"
proof -
  have d: "distinct m" and l: "length m = N" and r: "set m \<subseteq> {0..<N}"
    using assms by (auto simp: valid_chromosome_def list_all_iff)
  have "card (set m) = N" using d l by (simp add: distinct_card)
  then have "set m = {0..<N}" using r by (simp add: card_subset_eq)
  then have "set (setdiff1d [0..<N] m) = {}" by (simp add: set_setdiff1d)
  then show ?thesis by simp
qed

lemma mutate_step_replaces:
  assumes "mutate_step N mr i m g = Inr (m', g')"
  shows "m' = m \<or> (\<exists>new. new \<in> {0..<N} - set m \<and> i < length m \<and> m' = m[i := new])"
proof -
  obtain u g1 where rr: "random_random g = (u, g1)" by (cases "random_random g")
  show ?thesis
  proof (cases "u < mr \<and> setdiff1d [0..<N] m \<noteq> []")
    case True
    then obtain x g2 where c: "np_random_choice (setdiff1d [0..<N] m) g1 = Inr (x, g2)"
        "x \<in> set (setdiff1d [0..<N] m)"
      using np_random_choice_mem[of "setdiff1d [0..<N] m" g1] by blast
    then have "x \<in> {0..<N} - set m" by (simp only: set_setdiff1d)
    then show ?thesis using assms rr True c(1)
      by (auto simp: mutate_step_def Let_def split: if_splits)
  next
    case False
    then show ?thesis using assms rr by (auto simp: mutate_step_def Let_def split: if_splits)
  qed
qed

lemma mutate_step_valid:
  assumes v: "valid_chromosome N tsize m" and i: "i < tsize"
  shows "\<exists>m' g'. mutate_step N mr i m g = Inr (m', g') \<and> valid_chromosome N tsize m' \<and>
           (tsize = N \<longrightarrow> m' = m)"
proof -
  obtain u g1 where rr: "random_random g = (u, g1)" by (cases "random_random g")
  have d: "distinct m" and l: "length m = tsize" and r: "\<forall>x\<in>set m. x < N"
    using v by (auto simp: valid_chromosome_def list_all_iff)
  show ?thesis
  proof (cases "u < mr \<and> setdiff1d [0..<N] m \<noteq> []")
    case True
    then obtain x g2 where c: "np_random_choice (setdiff1d [0..<N] m) g1 = Inr (x, g2)"
        "x \<in> set (setdiff1d [0..<N] m)"
      using np_random_choice_mem[of "setdiff1d [0..<N] m" g1] by blast
    then have x: "x < N" "x \<notin> set m" by (simp_all add: set_setdiff1d)
    have run: "mutate_step N mr i m g = Inr (m[i := x], g2)"
      using rr True c(1) i l by (simp add: mutate_step_def Let_def)
    have "distinct (m[i := x])" using d x(2) by (simp add: distinct_list_update)
    moreover have "\<forall>y\<in>set (m[i := x]). y < N"
      using r x(1) set_update_subset_insert[of m i x] by auto
    ultimately have "valid_chromosome N tsize (m[i := x])"
      using l by (simp add: valid_chromosome_def list_all_iff)
    moreover have "tsize \<noteq> N" using True full_team[of N m] v by auto
    ultimately show ?thesis using run by simp
  next
    case False
    then have "mutate_step N mr i m g = Inr (m, g1)"
      using rr by (auto simp: mutate_step_def Let_def)
    then show ?thesis using v by simp
  qed
qed

lemma mutate_loop_valid:
  assumes "valid_chromosome N tsize m" and "\<forall>i\<in>set ps. i < tsize"
  shows "\<exists>m' g'. mutate_loop N mr ps m g = Inr (m', g') \<and> valid_chromosome N tsize m' \<and>
           (tsize = N \<longrightarrow> m' = m)"
  using assms
proof (induction ps arbitrary: m g)
  case Nil
  then show ?case by simp
next
  case (Cons i ps)
  then have i: "i < tsize" by simp
  obtain m1 g1 where s: "mutate_step N mr i m g = Inr (m1, g1)" "valid_chromosome N tsize m1"
      "tsize = N \<longrightarrow> m1 = m"
    using mutate_step_valid[OF Cons.prems(1) i, of mr g] by blast
  obtain m2 g2 where r: "mutate_loop N mr ps m1 g1 = Inr (m2, g2)" "valid_chromosome N tsize m2"
      "tsize = N \<longrightarrow> m2 = m1"
    using Cons.IH[OF s(2), of g1] Cons.prems(2) by auto
  have "mutate_loop N mr (i # ps) m g = Inr (m2, g2)" using s(1) r(1) by simp
  then show ?case using r(2,3) s(3) by auto
qed

lemma np_random_choice_Cons:
  "np_random_choice arr (k # g) = (if arr = [] then Inl ValueError else Inr (arr ! (k mod length arr), g))"
  by (simp add: np_random_choice_def)

text \<open>
  Claim C5. For a valid chromosome and any mutation rate (1.0 included), \<^verbatim>\<open>_mutate\<close>
  returns, and the chromosome it returns is valid: same length, pairwise distinct genes,
  every gene an index of the pool. When the team is the whole pool the chromosome comes
  back unchanged. At every position the loop either leaves the chromosome as it is or
  writes a gene taken from the complement of the chromosome as it stands at that moment.
\<close>

theorem mutate_closure:
  assumes "valid_chromosome N tsize c"
  shows "(\<exists>m g'. mutate N mr c g = Inr (m, g') \<and> valid_chromosome N tsize m \<and>
            (tsize = N \<longrightarrow> m = c)) \<and>
         (\<forall>i m g1 m' g2. mutate_step N mr i m g1 = Inr (m', g2) \<longrightarrow>
            m' = m \<or> (\<exists>new. new \<in> {0..<N} - set m \<and> i < length m \<and> m' = m[i := new]))"
proof -
  have "length c = tsize" using assms by (simp add: valid_chromosome_def)
  then have "\<forall>i\<in>set [0..<length c]. i < tsize" by simp
  then have "\<exists>m g'. mutate_loop N mr [0..<length c] c g = Inr (m, g') \<and>
      valid_chromosome N tsize m \<and> (tsize = N \<longrightarrow> m = c)"
    by (rule mutate_loop_valid[OF assms])
  then show ?thesis using mutate_step_replaces unfolding mutate_def by blast
qed

theorem mutate_closure_witness:
  "valid_chromosome 5 3 [0, 1, 2] \<and>
   mutate 5 1 [0, 1, 2] [0, 0, 0, 0, 0, 1] = Inr ([3, 0, 4], []) \<and>
   valid_chromosome 5 3 [3, 0, 4]"
proof -
  have v: "valid_chromosome 5 3 [0, 1, 2]" by (simp add: valid_chromosome_def)
  have s1: "mutate_step 5 1 0 [0, 1, 2] [0, 0, 0, 0, 0, 1] = Inr ([3, 1, 2], [0, 0, 0, 1])"
    unfolding mutate_step_def setdiff1d_upt
    by (simp add: random_random_Cons np_random_choice_Cons upt_rec)
  have s2: "mutate_step 5 1 1 [3, 1, 2] [0, 0, 0, 1] = Inr ([3, 0, 2], [0, 1])"
    unfolding mutate_step_def setdiff1d_upt
    by (simp add: random_random_Cons np_random_choice_Cons upt_rec)
  have s3: "mutate_step 5 1 2 [3, 0, 2] [0, 1] = Inr ([3, 0, 4], [])"
    unfolding mutate_step_def setdiff1d_upt
    by (simp add: random_random_Cons np_random_choice_Cons upt_rec)
  have idx: "[0..<length [0::nat, 1, 2]] = [0, 1, 2]" by (simp add: upt_rec)
  have run: "mutate 5 1 [0, 1, 2] [0, 0, 0, 0, 0, 1] = Inr ([3, 0, 4], [])"
    by (simp only: mutate_def idx mutate_loop.simps s1 s2 s3 sum.case prod.case)
  show ?thesis using mutate_closure[OF v, of 1 "[0, 0, 0, 0, 0, 1]"] v run by auto
qed

section \<open>Population initialization and the team size\<close>

lemma np_random_choice_noreplace_fails:
  "sz > a \<or> sz < 0 \<Longrightarrow> np_random_choice_noreplace a sz g = Inl ValueError"
  by (auto simp: np_random_choice_noreplace_def)

lemma np_random_choice_noreplace_zero:
  "0 \<le> a \<Longrightarrow> np_random_choice_noreplace a 0 g = Inr ([], g)"
  by (simp add: np_random_choice_noreplace_def)

lemma init_loop_fails:
  "tsize > a \<or> tsize < 0 \<Longrightarrow> init_loop (Suc k) a tsize pop g = Inl ValueError"
  by (simp add: np_random_choice_noreplace_fails)

lemma init_loop_zero:
  "0 \<le> a \<Longrightarrow> init_loop k a 0 pop g = Inr (pop @ replicate k [], g)"
proof (induction k arbitrary: pop)
  case 0
  then show ?case by simp
next
  case (Suc k)
  then show ?case by (simp add: np_random_choice_noreplace_zero replicate_app_Cons_same)
qed

lemma initialize_population_zero:
  "initialize_population psize N 0 g = Inr (replicate (nat psize) [], g)"
  by (simp add: initialize_population_def init_loop_zero)

text \<open>
  Claim C6, as the code has it. The code checks nothing itself: what fails is NumPy's
  sampling without replacement, with a ValueError, when the population has at least one
  slot and the team size is larger than the pool or negative. The failure is the result
  of \<^verbatim>\<open>optimize_for_archetype\<close> whatever the fitness evaluation is, so no generation has
  run. With team size 0 the initialization succeeds and every chromosome is empty.
\<close>

theorem initialize_population_invalid_team_size:
  assumes "1 \<le> population_size self"
    and "team_size self > int (num_candidates sc) \<or> team_size self < 0"
    and "scores self = Some sc" and "candidates_df self = Some df"
  shows "initialize_population (population_size self) (num_candidates sc) (team_size self) g
           = Inl ValueError \<and>
         optimize_for_archetype W self a g = Inl ValueError \<and>
         initialize_population (population_size self) (num_candidates sc) 0 g
           = Inr (replicate (nat (population_size self)) [], g)"
proof -
  obtain k where k: "nat (population_size self) = Suc k"
    using assms(1) by (metis Suc_nat_eq_nat_zadd1 add.commute diff_add_cancel diff_ge_0_iff_ge)
  have i: "initialize_population (population_size self) (num_candidates sc) (team_size self) g
           = Inl ValueError"
    unfolding initialize_population_def k by (rule init_loop_fails[OF assms(2)])
  then have "optimize_for_archetype W self a g = Inl ValueError"
    using assms(3,4) by (simp add: optimize_for_archetype_def)
  then show ?thesis using i initialize_population_zero by simp
qed

theorem initialize_population_invalid_team_size_witness:
  "(1::int) \<le> population_size demo_optimizer \<and>
   initialize_population 2 1 2 [] = Inl ValueError \<and>
   optimize_for_archetype demo_eval demo_optimizer demo_archetype [] = Inl ValueError"
  using initialize_population_invalid_team_size[of demo_optimizer demo_scores demo_table "[]"
      demo_eval demo_archetype]
  by (simp add: demo_optimizer_def demo_scores_def)

text \<open>
  Team size 0 is not rejected: a population of two empty chromosomes over a pool of
  three.
\<close>

theorem initialize_population_team_size_zero:
  "initialize_population 2 3 0 [] = Inr ([[], []], [])"
  by (simp add: initialize_population_zero numeral_2_eq_2)

section \<open>Skill coverage\<close>

lemma py_gt_half: "py_gt (Fin (1 / 2)) float_0_1"
  by (simp add: float_0_1_def)

lemma py_gt_zero: "\<not> py_gt (Fin 0) float_0_1"
  by (simp add: float_0_1_def)

lemma np_where_rows_ge: "x \<in> set (np_where_rows i rows) \<Longrightarrow> i \<le> x"
  by (induction rows arbitrary: i) (auto split: if_splits dest: Suc_leD)

lemma np_where_rows_count:
  "length (remdups (np_where_rows i rows))
     = length (filter (\<lambda>row. \<exists>x\<in>set row. py_gt x float_0_1) rows)"
proof (induction rows arbitrary: i)
  case Nil
  then show ?case by simp
next
  case (Cons row rows)
  let ?hit = "\<exists>x\<in>set row. py_gt x float_0_1"
  let ?here = "map (\<lambda>_. i) (filter (\<lambda>x. py_gt x float_0_1) row)"
  have notin: "i \<notin> set (np_where_rows (Suc i) rows)"
    using np_where_rows_ge[of i "Suc i" rows] by auto
  have IH: "length (remdups (np_where_rows (Suc i) rows))
     = length (filter (\<lambda>row. \<exists>x\<in>set row. py_gt x float_0_1) rows)" by (rule Cons.IH)
  show ?case
  proof (cases ?hit)
    case True
    then have "set ?here = {i}" by (auto simp: filter_empty_conv)
    then have "set (np_where_rows i (row # rows)) = insert i (set (np_where_rows (Suc i) rows))"
      by simp
    then have "card (set (np_where_rows i (row # rows))) = Suc (card (set (np_where_rows (Suc i) rows)))"
      using notin by simp
    then show ?thesis using True IH by (simp add: length_remdups_card_conv)
  next
    case False
    then have "?here = []" by (auto simp: filter_empty_conv)
    then have "np_where_rows i (row # rows) = np_where_rows (Suc i) rows" by simp
    then show ?thesis using False IH by simp
  qed
qed

lemma skill_coverage_le_third: "skill_coverage sc chromosome \<le> 1 / 3"
proof -
  let ?m = "column_stack3 (gather (technical_scores sc) chromosome)
              (gather (education_scores sc) chromosome) (gather (soft_skills_scores sc) chromosome)"
  let ?k = "length (remdups (np_where_rows 0 ?m))"
  have "?k \<le> length ?m" unfolding np_where_rows_count by (rule length_filter_le)
  also have "length ?m = length chromosome" by (simp add: column_stack3_def gather_def)
  finally have k: "?k \<le> length chromosome" .
  have "real ?k / real (max 1 (3 * length chromosome)) \<le> 1 / 3"
  proof (cases "chromosome = []")
    case True
    then show ?thesis using k by simp
  next
    case False
    then have "max 1 (3 * length chromosome) = 3 * length chromosome" by (cases chromosome) auto
    moreover have "real ?k / real (3 * length chromosome) \<le> 1 / 3"
      using k False by (simp add: field_simps)
    ultimately show ?thesis by simp
  qed
  then show ?thesis by (simp add: skill_coverage_def Let_def)
qed

text \<open>
  Claim C2 on the code. The claim counts (skill dimension, member) pairs, so that a team
  of one member who exceeds 0.1 on all three skills has coverage 3 / 3 = 1. The code
  takes \<^verbatim>\<open>np.where(...)[0]\<close>, the row indices only, and counts the distinct ones:
  it counts members with at least one skill above 0.1, and divides by three times the
  team size. On that team the code computes 1 / 3. (By \<open>skill_coverage_le_third\<close> the
  code's coverage never exceeds 1 / 3.)
\<close>

theorem skill_coverage_one_member:
  "skill_coverage c2_scores [0] = 1 / 3 \<and> skill_coverage_spec c2_scores [0] = 1"
  by (simp add: skill_coverage_def skill_coverage_spec_def c2_scores_def gather_def
      column_stack3_def py_gt_half)

section \<open>Evaluation of a population\<close>

lemma sanitized_finite: "\<exists>r. (if isnan f \<or> isinf f then Fin 0 else f) = Fin r"
  by (cases f) simp_all

lemma evaluate_population_nth:
  assumes "evaluate_population W sc a pop = Inr fits"
  shows "length fits = length pop \<and>
         (\<forall>i<length pop. \<exists>f. calculate_fitness W sc (pop ! i) a = Inr f \<and>
            fits ! i = (if isnan f \<or> isinf f then Fin 0 else f))"
  using assms
proof (induction pop arbitrary: fits)
  case Nil
  then show ?case by simp
next
  case (Cons chrom rest)
  from Cons.prems obtain f where f: "calculate_fitness W sc chrom a = Inr f"
    by (auto split: sum.splits)
  from Cons.prems f obtain fs where fs: "evaluate_population W sc a rest = Inr fs"
    by (auto simp: Let_def split: sum.splits)
  have fits: "fits = (if isnan f \<or> isinf f then Fin 0 else f) # fs"
    using Cons.prems f fs by (simp add: Let_def)
  have IH: "length fs = length rest \<and>
         (\<forall>i<length rest. \<exists>f. calculate_fitness W sc (rest ! i) a = Inr f \<and>
            fs ! i = (if isnan f \<or> isinf f then Fin 0 else f))"
    by (rule Cons.IH[OF fs])
  show ?case
  proof (intro conjI allI impI)
    show "length fits = length (chrom # rest)" using fits IH by simp
  next
    fix i assume "i < length (chrom # rest)"
    then show "\<exists>f. calculate_fitness W sc ((chrom # rest) ! i) a = Inr f \<and>
            fits ! i = (if isnan f \<or> isinf f then Fin 0 else f)"
      using f fits IH by (cases i) auto
  qed
qed

lemma evaluate_population_all_finite:
  assumes "evaluate_population W sc a pop = Inr fits" and "x \<in> set fits"
  shows "\<exists>r. x = Fin r"
proof -
  obtain i where i: "i < length fits" "fits ! i = x" using assms(2) by (auto simp: in_set_conv_nth)
  then show ?thesis using evaluate_population_nth[OF assms(1)] sanitized_finite by metis
qed

section \<open>Comparison of floats and the position of the maximum\<close>

lemma py_ge_trans: "py_ge a b \<Longrightarrow> py_ge b c \<Longrightarrow> py_ge a c"
  by (cases a; cases b; cases c) simp_all

lemma py_gt_imp_ge: "py_gt a b \<Longrightarrow> py_ge a b"
  by (cases a; cases b) simp_all

lemma not_py_gt_imp_ge: "\<not> isnan a \<Longrightarrow> \<not> isnan b \<Longrightarrow> \<not> py_gt a b \<Longrightarrow> py_ge b a"
  by (cases a; cases b) simp_all

lemma py_ge_refl: "\<not> isnan a \<Longrightarrow> py_ge a a"
  by (cases a) simp_all

lemma py_ge_not_nan: "py_ge a b \<Longrightarrow> \<not> isnan a \<and> \<not> isnan b"
  by (cases a; cases b) simp_all

lemma argmax_scan_max:
  assumes "length pre = i" and "best_i < i" and "pre ! best_i = best"
    and "\<forall>y\<in>set (pre @ xs). \<not> isnan y" and "\<forall>y\<in>set pre. py_ge best y"
  shows "argmax_scan xs i best_i best < length (pre @ xs) \<and>
         (\<forall>y\<in>set (pre @ xs). py_ge ((pre @ xs) ! argmax_scan xs i best_i best) y)"
  using assms
proof (induction xs arbitrary: pre i best_i best)
  case Nil
  then show ?case by simp
next
  case (Cons x xs)
  have nb: "\<not> isnan best" using Cons.prems(2,3,4) Cons.prems(1)
    by (metis UnI1 nth_mem set_append)
  have nx: "\<not> isnan x" using Cons.prems(4) by simp
  have app: "pre @ x # xs = (pre @ [x]) @ xs" by simp
  show ?case
  proof (cases "py_gt x best")
    case True
    have step: "argmax_scan (x # xs) i best_i best = argmax_scan xs (Suc i) i x"
      using True nb by simp
    have "\<forall>y\<in>set (pre @ [x]). py_ge x y"
      using Cons.prems(5) True nx by (auto intro: py_ge_trans py_gt_imp_ge py_ge_refl)
    then have "argmax_scan xs (Suc i) i x < length ((pre @ [x]) @ xs) \<and>
         (\<forall>y\<in>set ((pre @ [x]) @ xs). py_ge (((pre @ [x]) @ xs) ! argmax_scan xs (Suc i) i x) y)"
      using Cons.prems(1,4) by (intro Cons.IH) (simp_all add: nth_append)
    then show ?thesis unfolding step app .
  next
    case False
    have step: "argmax_scan (x # xs) i best_i best = argmax_scan xs (Suc i) best_i best"
      using False nb nx by simp
    have "py_ge best x" using False nb nx by (simp add: not_py_gt_imp_ge)
    then have "\<forall>y\<in>set (pre @ [x]). py_ge best y" using Cons.prems(5) by simp
    then have "argmax_scan xs (Suc i) best_i best < length ((pre @ [x]) @ xs) \<and>
         (\<forall>y\<in>set ((pre @ [x]) @ xs). py_ge (((pre @ [x]) @ xs) ! argmax_scan xs (Suc i) best_i best) y)"
      using Cons.prems(1,2,3,4) by (intro Cons.IH) (simp_all add: nth_append)
    then show ?thesis unfolding step app .
  qed
qed

lemma np_argmax_max:
  assumes "np_argmax xs = Inr k" and "\<forall>y\<in>set xs. \<not> isnan y"
  shows "k < length xs \<and> (\<forall>y\<in>set xs. py_ge (xs ! k) y)"
proof (cases xs)
  case Nil
  then show ?thesis using assms(1) by (simp add: np_argmax_def)
next
  case (Cons x rest)
  then have k: "k = argmax_scan rest 1 0 x" using assms(1) by (simp add: np_argmax_def)
  have "argmax_scan rest 1 0 x < length ([x] @ rest) \<and>
         (\<forall>y\<in>set ([x] @ rest). py_ge (([x] @ rest) ! argmax_scan rest 1 0 x) y)"
    using assms(2) Cons by (intro argmax_scan_max) (simp_all add: py_ge_refl)
  then show ?thesis using k Cons by simp
qed

lemma np_argmax_empty: "np_argmax [] = Inl ValueError"
  by (simp add: np_argmax_def)

lemma generation_step_cases:
  assumes "generation_step W self sc a st = Inr st'"
  obtains fits k where "evaluate_population W sc a (population st) = Inr fits"
    and "np_argmax fits = Inr k"
    and "best_fitness st' = (if py_gt (fits ! k) (best_fitness st) then fits ! k else best_fitness st)"
    and "best_chromosome st' = (if py_gt (fits ! k) (best_fitness st)
                                then Some (population st ! k) else best_chromosome st)"
proof -
  from assms obtain fits where fits: "evaluate_population W sc a (population st) = Inr fits"
    by (auto simp: generation_step_def split: sum.splits)
  from assms fits obtain k where k: "np_argmax fits = Inr k"
    by (auto simp: generation_step_def split: sum.splits)
  from assms fits k obtain np g' where
    "next_generation self (num_candidates sc) (population st) fits (gen_rng st) = Inr (np, g')"
    by (auto simp: generation_step_def Let_def split: sum.splits)
  then have "st' = \<lparr>population = np,
       best_chromosome = (if py_gt (fits ! k) (best_fitness st)
                                then Some (population st ! k) else best_chromosome st),
       best_fitness = (if py_gt (fits ! k) (best_fitness st) then fits ! k else best_fitness st),
       gen_rng = g'\<rparr>"
    using assms fits k by (simp add: generation_step_def Let_def)
  then show ?thesis using that[OF fits k] by simp
qed

lemma generation_step_mono:
  assumes step: "generation_step W self sc a st = Inr st'" and nn: "\<not> isnan (best_fitness st)"
  shows "py_ge (best_fitness st') (best_fitness st)"
    and "best_fitness st' \<noteq> best_fitness st \<Longrightarrow> py_gt (best_fitness st') (best_fitness st)"
    and "evaluate_population W sc a (population st) = Inr fits \<Longrightarrow> f \<in> set fits \<Longrightarrow>
           py_ge (best_fitness st') f"
    and "best_fitness st \<noteq> PInf \<Longrightarrow> \<exists>r. best_fitness st' = Fin r"
proof -
  from step obtain fs k where fs: "evaluate_population W sc a (population st) = Inr fs"
    and k: "np_argmax fs = Inr k"
    and b: "best_fitness st' = (if py_gt (fs ! k) (best_fitness st) then fs ! k else best_fitness st)"
    by (rule generation_step_cases)
  have fin: "\<forall>y\<in>set fs. \<exists>r. y = Fin r" using evaluate_population_all_finite[OF fs] by blast
  then have nnan: "\<forall>y\<in>set fs. \<not> isnan y" by auto
  have kmax: "k < length fs" "\<forall>y\<in>set fs. py_ge (fs ! k) y"
    using np_argmax_max[OF k nnan] by simp_all
  have kn: "\<not> isnan (fs ! k)" using kmax(1) nnan by simp
  show "py_ge (best_fitness st') (best_fitness st)"
    using b nn by (auto intro: py_gt_imp_ge py_ge_refl)
  show "best_fitness st' \<noteq> best_fitness st \<Longrightarrow> py_gt (best_fitness st') (best_fitness st)"
    using b by (auto split: if_splits)
  have ge_k: "py_ge (best_fitness st') (fs ! k)"
    using b nn kn by (auto intro: py_ge_refl not_py_gt_imp_ge)
  show "py_ge (best_fitness st') f"
    if "evaluate_population W sc a (population st) = Inr fits" "f \<in> set fits"
  proof -
    have "fits = fs" using that(1) fs by simp
    then have "py_ge (fs ! k) f" using kmax(2) that(2) by simp
    then show ?thesis using ge_k by (rule py_ge_trans[rotated])
  qed
  obtain r where r: "fs ! k = Fin r" using fin kmax(1) by (meson nth_mem)
  show "\<exists>r. best_fitness st' = Fin r" if "best_fitness st \<noteq> PInf"
  proof (cases "best_fitness st")
    case (Fin x)
    then show ?thesis using b r by simp
  next
    case PInf
    then show ?thesis using that by simp
  next
    case NInf
    then show ?thesis using b r by simp
  next
    case NaN
    then show ?thesis using nn by simp
  qed
qed


section \<open>A run of two generations\<close>

lemma fill_offspring_done:
  "\<not> int (length next_population) < population_size self \<Longrightarrow>
     fill_offspring self N pop fits next_population g = Inr (next_population, g)"
  by (subst fill_offspring.simps) simp

lemma set_insert_index: "set (insert_index xs i acc) = insert i (set acc)"
  by (induction acc) auto

lemma length_insert_index: "length (insert_index xs i acc) = Suc (length acc)"
  by (induction acc) auto

lemma set_foldl_insert_index:
  "set (foldl (\<lambda>acc i. insert_index xs i acc) acc is) = set is \<union> set acc"
  by (induction "is" arbitrary: acc) (auto simp: set_insert_index)

lemma length_foldl_insert_index:
  "length (foldl (\<lambda>acc i. insert_index xs i acc) acc is) = length is + length acc"
  by (induction "is" arbitrary: acc) (auto simp: length_insert_index)

lemma set_np_argsort: "set (np_argsort xs) = {0..<length xs}"
  by (simp add: np_argsort_def set_foldl_insert_index)

lemma length_np_argsort: "length (np_argsort xs) = length xs"
  by (simp add: np_argsort_def length_foldl_insert_index)

lemma run_init: "initialize_population 3 3 1 [0, 1, 2] = Inr (run_population, [])"
  by code_simp


lemma run_fitnesses:
  "evaluate_population demo_eval run_scores demo_archetype run_population
     = Inr [Fin 0, Fin 0, Fin (1 / 2)]"
  by code_simp

lemma run_next:
  "next_generation run_optimizer 3 run_population [Fin 0, Fin 0, Fin (1 / 2)] []
     = Inr (run_population, [])"
  by code_simp

lemma run_step1:
  "generation_step demo_eval run_optimizer run_scores demo_archetype run_start = Inr run_best"
  by code_simp

lemma run_step2:
  "generation_step demo_eval run_optimizer run_scores demo_archetype run_best = Inr run_best"
  by code_simp


lemma run_evolve:
  "evolve demo_eval run_optimizer run_scores demo_archetype 2 run_start = Inr run_best"
  by (simp add: numeral_2_eq_2 run_step1 run_step2)

lemma run_result:
  "optimize_for_archetype demo_eval run_optimizer demo_archetype [0, 1, 2]
     = Inr (\<lparr>res_archetype = demo_archetype, res_team = [run_table ! 2],
             res_fitness = Fin (1 / 2), res_team_indices = [2]\<rparr>, [])"
  by code_simp

section \<open>The stored fitness values\<close>

text \<open>
  Claim C10. In a generation that completes, the fitness list has one entry for each
  chromosome of the population; each entry is the value \<^verbatim>\<open>_calculate_fitness\<close>
  returned, with NaN and the infinities replaced by 0.0, and so a finite number. This
  list is the one that \<^verbatim>\<open>np.argmax\<close> and the comparison with the best fitness so
  far read, and the one that elitism and tournament selection receive.
\<close>

theorem stored_fitness_finite:
  assumes "generation_step W self sc a st = Inr st'"
  shows "\<exists>fits k g'.
           evaluate_population W sc a (population st) = Inr fits \<and>
           length fits = length (population st) \<and>
           (\<forall>i<length fits. \<exists>f. calculate_fitness W sc (population st ! i) a = Inr f \<and>
               fits ! i = (if isnan f \<or> isinf f then Fin 0 else f) \<and>
               (\<exists>r. fits ! i = Fin r)) \<and>
           np_argmax fits = Inr k \<and>
           best_fitness st' = (if py_gt (fits ! k) (best_fitness st) then fits ! k
                               else best_fitness st) \<and>
           next_generation self (num_candidates sc) (population st) fits (gen_rng st)
             = Inr (population st', g')"
proof -
  from assms obtain fits where fits: "evaluate_population W sc a (population st) = Inr fits"
    by (auto simp: generation_step_def split: sum.splits)
  from assms fits obtain k where k: "np_argmax fits = Inr k"
    by (auto simp: generation_step_def split: sum.splits)
  from assms fits k obtain np g' where
    ng: "next_generation self (num_candidates sc) (population st) fits (gen_rng st) = Inr (np, g')"
    by (auto simp: generation_step_def Let_def split: sum.splits)
  have st': "population st' = np"
    "best_fitness st' = (if py_gt (fits ! k) (best_fitness st) then fits ! k else best_fitness st)"
    using assms fits k ng by (auto simp: generation_step_def Let_def)
  have len: "length fits = length (population st)"
    using evaluate_population_nth[OF fits] by simp
  have each: "\<exists>f. calculate_fitness W sc (population st ! i) a = Inr f \<and>
               fits ! i = (if isnan f \<or> isinf f then Fin 0 else f) \<and>
               (\<exists>r. fits ! i = Fin r)" if "i < length fits" for i
  proof -
    have "i < length (population st)" using that len by simp
    moreover have "\<forall>i<length (population st). \<exists>f. calculate_fitness W sc (population st ! i) a = Inr f \<and>
            fits ! i = (if isnan f \<or> isinf f then Fin 0 else f)"
      using evaluate_population_nth[OF fits] by blast
    ultimately obtain f where f: "calculate_fitness W sc (population st ! i) a = Inr f"
      "fits ! i = (if isnan f \<or> isinf f then Fin 0 else f)"
      by blast
    then show ?thesis using sanitized_finite[of f] by auto
  qed
  show ?thesis using fits len each k st' ng by blast
qed

theorem stored_fitness_finite_witness:
  "generation_step demo_eval run_optimizer run_scores demo_archetype run_start = Inr run_best \<and>
   calculate_fitness demo_eval run_scores [0] demo_archetype = Inr PInf \<and>
   evaluate_population demo_eval run_scores demo_archetype (population run_start)
     = Inr [Fin 0, Fin 0, Fin (1 / 2)]"
proof -
  have c: "calculate_fitness demo_eval run_scores [0] demo_archetype = Inr PInf" by code_simp
  have p: "population run_start = run_population" by (simp add: run_start_def)
  show ?thesis
    using stored_fitness_finite[OF run_step1] run_step1 c run_fitnesses p by simp
qed


section \<open>The best fitness over the generations\<close>

lemma evolve_add:
  "evolve W self sc a (k + j) st =
     (case evolve W self sc a k st of Inl err \<Rightarrow> Inl err | Inr s \<Rightarrow> evolve W self sc a j s)"
  by (induction k arbitrary: st) (auto split: sum.splits)

lemma tracked_not_nan: "tracked b \<Longrightarrow> \<not> isnan b \<and> b \<noteq> PInf"
  by (auto simp: tracked_def)

lemma evolve_mono:
  assumes "evolve W self sc a n st = Inr st'" and "tracked (best_fitness st)"
  shows "py_ge (best_fitness st') (best_fitness st) \<and> tracked (best_fitness st') \<and>
         (0 < n \<longrightarrow> (\<exists>r. best_fitness st' = Fin r))"
  using assms
proof (induction n arbitrary: st)
  case 0
  then show ?case using tracked_not_nan by (auto intro: py_ge_refl)
next
  case (Suc n)
  from Suc.prems(1) obtain s1 where s1: "generation_step W self sc a st = Inr s1"
    and rest: "evolve W self sc a n s1 = Inr st'"
    by (auto split: sum.splits)
  have nn: "\<not> isnan (best_fitness st)" "best_fitness st \<noteq> PInf"
    using tracked_not_nan[OF Suc.prems(2)] by simp_all
  have ge1: "py_ge (best_fitness s1) (best_fitness st)" by (rule generation_step_mono(1)[OF s1 nn(1)])
  obtain r where r: "best_fitness s1 = Fin r" using generation_step_mono(4)[OF s1 nn] by blast
  then have t1: "tracked (best_fitness s1)" by (simp add: tracked_def)
  have IH: "py_ge (best_fitness st') (best_fitness s1) \<and> tracked (best_fitness st') \<and>
         (0 < n \<longrightarrow> (\<exists>r. best_fitness st' = Fin r))"
    by (rule Suc.IH[OF rest t1])
  have "py_ge (best_fitness st') (best_fitness st)" using IH ge1 by (blast intro: py_ge_trans)
  moreover have "\<exists>r. best_fitness st' = Fin r"
  proof (cases "best_fitness st'")
    case (Fin x)
    then show ?thesis by simp
  next
    case PInf
    then show ?thesis using IH by (simp add: tracked_def)
  next
    case NInf
    then show ?thesis using IH r by simp
  next
    case NaN
    then show ?thesis using IH by (simp add: tracked_def)
  qed
  ultimately show ?case using IH by simp
qed

lemma evolve_tracked:
  assumes "evolve W self sc a k st = Inr sk" and "tracked (best_fitness st)"
  shows "tracked (best_fitness sk)"
  using evolve_mono[OF assms] by simp

lemma evolve_between:
  assumes "k \<le> j" and "evolve W self sc a k st = Inr sk" and "evolve W self sc a j st = Inr sj"
  shows "evolve W self sc a (j - k) sk = Inr sj"
proof -
  have "evolve W self sc a (k + (j - k)) st = evolve W self sc a (j - k) sk"
    using assms(2) by (simp add: evolve_add)
  then show ?thesis using assms(1,3) by simp
qed

text \<open>
  Claim C8. In a run of \<^verbatim>\<open>optimize_for_archetype\<close> that returns, with \<open>st0\<close> the state
  before the first generation: the best fitness after \<open>j\<close> generations is at least the
  best fitness after \<open>k \<le> j\<close> generations; a generation changes the best fitness only
  to a strictly greater value; and the fitness returned is at least every value of the
  fitness list of every generation of the run.
\<close>

theorem best_ever_monotone:
  assumes res: "optimize_for_archetype W self a g = Inr (res, g')"
    and sc: "scores self = Some sc"
    and init: "initialize_population (population_size self) (num_candidates sc) (team_size self) g
                 = Inr (pop, g1)"
    and st0: "st0 = \<lparr>population = pop, best_chromosome = None, best_fitness = NInf, gen_rng = g1\<rparr>"
  shows "(\<forall>k j sk sj. k \<le> j \<and> evolve W self sc a k st0 = Inr sk \<and> evolve W self sc a j st0 = Inr sj
            \<longrightarrow> py_ge (best_fitness sj) (best_fitness sk)) \<and>
         (\<forall>k sk sk'. evolve W self sc a k st0 = Inr sk \<and> generation_step W self sc a sk = Inr sk'
              \<and> best_fitness sk' \<noteq> best_fitness sk
            \<longrightarrow> py_gt (best_fitness sk') (best_fitness sk)) \<and>
         (\<forall>k sk fits f. k < nat (generations self) \<and> evolve W self sc a k st0 = Inr sk
              \<and> evaluate_population W sc a (population sk) = Inr fits \<and> f \<in> set fits
            \<longrightarrow> py_ge (res_fitness res) f)"
proof -
  have t0: "tracked (best_fitness st0)" using st0 by (simp add: tracked_def)
  let ?n = "nat (generations self)"
  obtain stn where stn: "evolve W self sc a ?n st0 = Inr stn"
  proof (cases "evolve W self sc a ?n st0")
    case (Inl err)
    then show ?thesis using res sc init st0 by (simp add: optimize_for_archetype_def)
  next
    case (Inr s)
    then show ?thesis using that by simp
  qed
  from res sc init st0 stn obtain df where df: "candidates_df self = Some df"
    by (cases "candidates_df self") (simp_all add: optimize_for_archetype_def)
  obtain best where best: "best_chromosome stn = Some best"
  proof (cases "best_chromosome stn")
    case None
    then show ?thesis using res sc df init st0 stn by (simp add: optimize_for_archetype_def)
  next
    case (Some b)
    then show ?thesis using that by simp
  qed
  have rf: "res_fitness res = (if isnan (best_fitness stn) \<or> isinf (best_fitness stn)
                                then Fin 0 else best_fitness stn)"
  proof (cases "list_all (\<lambda>i. i < length df) best")
    case True
    then have "res = \<lparr>res_archetype = a, res_team = map (\<lambda>i. df ! i) best,
                      res_fitness = (if isnan (best_fitness stn) \<or> isinf (best_fitness stn)
                                     then Fin 0 else best_fitness stn),
                      res_team_indices = best\<rparr>"
      using res sc df init st0 stn best by (simp add: optimize_for_archetype_def)
    then show ?thesis by simp
  next
    case False
    then show ?thesis using res sc df init st0 stn best by (simp add: optimize_for_archetype_def)
  qed
  have mono: "py_ge (best_fitness sj) (best_fitness sk)"
    if "k \<le> j" "evolve W self sc a k st0 = Inr sk" "evolve W self sc a j st0 = Inr sj" for k j sk sj
  proof -
    have "evolve W self sc a (j - k) sk = Inr sj" using that by (rule evolve_between)
    moreover have "tracked (best_fitness sk)" using that(2) t0 by (rule evolve_tracked)
    ultimately show ?thesis using evolve_mono by blast
  qed
  have strict: "py_gt (best_fitness sk') (best_fitness sk)"
    if "evolve W self sc a k st0 = Inr sk" "generation_step W self sc a sk = Inr sk'"
      "best_fitness sk' \<noteq> best_fitness sk" for k sk sk'
  proof -
    have "tracked (best_fitness sk)" using that(1) t0 by (rule evolve_tracked)
    then have "\<not> isnan (best_fitness sk)" using tracked_not_nan by blast
    then show ?thesis using generation_step_mono(2)[OF that(2)] that(3) by blast
  qed
  have final: "py_ge (res_fitness res) f"
    if "k < ?n" "evolve W self sc a k st0 = Inr sk"
      "evaluate_population W sc a (population sk) = Inr fits" "f \<in> set fits" for k sk fits f
  proof -
    have tk: "tracked (best_fitness sk)" using that(2) t0 by (rule evolve_tracked)
    then have nn: "\<not> isnan (best_fitness sk)" using tracked_not_nan by blast
    have e: "evolve W self sc a (?n - k) sk = Inr stn"
      using that(1,2) stn by (intro evolve_between) simp_all
    define m where "m = ?n - Suc k"
    have "?n - k = Suc m" using that(1) by (simp add: m_def)
    then have e': "evolve W self sc a (Suc m) sk = Inr stn" using e by simp
    obtain sk' where sk': "generation_step W self sc a sk = Inr sk'"
      and rest: "evolve W self sc a m sk' = Inr stn"
    proof (cases "generation_step W self sc a sk")
      case (Inl err)
      then show ?thesis using e' by simp
    next
      case (Inr s)
      then show ?thesis using e' that by simp
    qed
    have ge_f: "py_ge (best_fitness sk') f" by (rule generation_step_mono(3)[OF sk' nn that(3,4)])
    have "tracked (best_fitness sk')"
      using generation_step_mono(4)[OF sk' nn] tracked_not_nan[OF tk] by (auto simp: tracked_def)
    then have "py_ge (best_fitness stn) (best_fitness sk')" using evolve_mono[OF rest] by simp
    then have ge: "py_ge (best_fitness stn) f" using ge_f by (rule py_ge_trans)
    have "0 < ?n" using that(1) by simp
    then obtain r where "best_fitness stn = Fin r" using evolve_mono[OF stn t0] by blast
    then show ?thesis using rf ge by simp
  qed
  show ?thesis using mono strict final by blast
qed


theorem best_ever_monotone_witness:
  "optimize_for_archetype demo_eval run_optimizer demo_archetype [0, 1, 2]
     = Inr (\<lparr>res_archetype = demo_archetype, res_team = [run_table ! 2],
             res_fitness = Fin (1 / 2), res_team_indices = [2]\<rparr>, []) \<and>
   evolve demo_eval run_optimizer run_scores demo_archetype 0 run_start = Inr run_start \<and>
   evaluate_population demo_eval run_scores demo_archetype (population run_start)
     = Inr [Fin 0, Fin 0, Fin (1 / 2)] \<and>
   py_ge (res_fitness \<lparr>res_archetype = demo_archetype, res_team = [run_table ! 2],
             res_fitness = Fin (1 / 2), res_team_indices = [2]\<rparr>) (Fin 0)"
proof -
  have s: "scores run_optimizer = Some run_scores" by (simp add: run_optimizer_def)
  have init: "initialize_population (population_size run_optimizer) (num_candidates run_scores)
                (team_size run_optimizer) [0, 1, 2] = Inr (run_population, [])"
    using run_init by (simp add: run_optimizer_def run_scores_def)
  have st0: "run_start = \<lparr>population = run_population, best_chromosome = None,
                           best_fitness = NInf, gen_rng = []\<rparr>"
    by (simp add: run_start_def)
  have p: "population run_start = run_population" by (simp add: run_start_def)
  have n: "0 < nat (generations run_optimizer)" by (simp add: run_optimizer_def)
  have e0: "evolve demo_eval run_optimizer run_scores demo_archetype 0 run_start = Inr run_start"
    by simp
  have ev: "evaluate_population demo_eval run_scores demo_archetype (population run_start)
     = Inr [Fin 0, Fin 0, Fin (1 / 2)]" using run_fitnesses p by simp
  note T = best_ever_monotone[OF run_result s init st0]
  have c3: "\<forall>k sk fits f. k < nat (generations run_optimizer)
              \<and> evolve demo_eval run_optimizer run_scores demo_archetype k run_start = Inr sk
              \<and> evaluate_population demo_eval run_scores demo_archetype (population sk) = Inr fits
              \<and> f \<in> set fits
            \<longrightarrow> py_ge (res_fitness \<lparr>res_archetype = demo_archetype, res_team = [run_table ! 2],
             res_fitness = Fin (1 / 2), res_team_indices = [2]\<rparr>) f"
    by (rule conjunct2[OF conjunct2[OF T]])
  have "py_ge (res_fitness \<lparr>res_archetype = demo_archetype, res_team = [run_table ! 2],
             res_fitness = Fin (1 / 2), res_team_indices = [2]\<rparr>) (Fin 0)"
    using c3[rule_format, of 0 run_start "[Fin 0, Fin 0, Fin (1 / 2)]" "Fin 0"] n e0 ev by simp
  then show ?thesis using run_result e0 ev by simp
qed

section \<open>Elitism\<close>

lemma py_slice_from_zero: "py_slice_from xs 0 = xs"
  by (simp add: py_slice_from_def)

lemma next_generation_no_elitism:
  assumes "py_int (real_of_int (population_size self) * elitism_rate self) = 0"
    and "length fits = length pop" and "int (length pop) = population_size self"
  shows "next_generation self N pop fits g = Inr (map (\<lambda>i. pop ! i) (np_argsort fits), g)"
proof -
  have all: "list_all (\<lambda>i. i < length pop) (np_argsort fits)"
    using assms(2) by (simp add: list_all_iff set_np_argsort)
  have "\<not> int (length (map (\<lambda>i. pop ! i) (np_argsort fits))) < population_size self"
    using assms(2,3) by (simp add: length_np_argsort)
  then have "fill_offspring self N pop fits (map (\<lambda>i. pop ! i) (np_argsort fits)) g
               = Inr (map (\<lambda>i. pop ! i) (np_argsort fits), g)"
    by (rule fill_offspring_done)
  then show ?thesis using assms(1) all by (simp add: next_generation_def py_slice_from_zero)
qed

text \<open>
  Claim C1 on the code. With \<^verbatim>\<open>elitism_count = 0\<close> the claim has no chromosome copied
  and the next population made of offspring only. The code slices
  \<^verbatim>\<open>np.argsort(fitnesses)[-elitism_count:]\<close>, and \<^verbatim>\<open>[-0:]\<close> is the whole array: the
  elite is the entire current population, in ascending order of fitness, the next
  population is full before the loop starts, and no parent is selected, crossed or
  mutated (the random tape comes back untouched). Here the population is
  \<open>[[0], [1], [2]]\<close> with fitness 0.3, 0.1 and 0.2, and the elitism rate is 0.
\<close>

theorem no_elitism_keeps_population:
  "next_generation no_elitism_optimizer 3 [[0], [1], [2]]
       [Fin (3 / 10), Fin (1 / 10), Fin (1 / 5)] [5, 7]
     = Inr ([[1], [2], [0]], [5, 7])"
  by code_simp

section \<open>Sanitation of the scores\<close>

lemma nan_to_num_finite: "\<exists>r. nan_to_num x = Fin r"
  by (cases x) simp_all

lemma nan_to_num_idem: "nan_to_num (nan_to_num x) = nan_to_num x"
  by (cases x) simp_all

lemma sanitize_scores_idem: "sanitize_scores (sanitize_scores sc) = sanitize_scores sc"
  by (simp add: sanitize_scores_def nan_to_num_idem)

lemma dbl_max_pos: "0 < dbl_max"
  by (simp add: dbl_max_def)

lemma calculate_fitness_not_nan:
  assumes "calculate_fitness W sc c a = Inr f"
  shows "\<not> isnan f"
proof -
  have h: "\<not> isnan (mul_half x)" if "\<not> isnan x" for x using that by (cases x) simp_all
  define raw where "raw = W (gather (technical_scores sc) c) (gather (education_scores sc) c)
      (gather (soft_skills_scores sc) c) (gather (overall_scores sc) c) (weightings a)"
  define f1 where "f1 = (if isnan raw then Fin 0 else raw)"
  have n1: "\<not> isnan f1" by (simp add: f1_def)
  have "f = (if length (remdups c) < length c then mul_half f1 else f1)"
    using assms by (auto simp: calculate_fitness_def Let_def raw_def f1_def split: if_splits)
  then show ?thesis using n1 h by simp
qed

lemma prepare_scores_sanitized:
  "prepare_scores (self\<lparr>scores := map_option sanitize_scores (scores self)\<rparr>) = prepare_scores self"
  by (cases "scores self") (simp_all add: prepare_scores_def sanitize_scores_idem)

lemma load_candidates_scores:
  "load_candidates fs (self\<lparr>scores := x\<rparr>) =
     (case load_candidates fs self of Inl err \<Rightarrow> Inl err | Inr s \<Rightarrow> Inr (s\<lparr>scores := x\<rparr>))"
  by (simp add: load_candidates_def split: option.splits)

lemma load_candidates_keeps_scores:
  "load_candidates fs self = Inr s \<Longrightarrow> scores s = scores self"
  by (auto simp: load_candidates_def split: option.splits if_splits)

lemma optimize_sanitized:
  "optimize W fs (self\<lparr>scores := map_option sanitize_scores (scores self)\<rparr>) g = optimize W fs self g"
proof (cases "load_candidates fs self")
  case (Inl err)
  then show ?thesis by (simp add: optimize_def load_candidates_scores)
next
  case (Inr s)
  then have sc: "scores s = scores self" by (rule load_candidates_keeps_scores)
  have "prepare_scores (s\<lparr>scores := map_option sanitize_scores (scores self)\<rparr>) = prepare_scores s"
    using prepare_scores_sanitized[of s] sc by simp
  then show ?thesis using Inr by (simp add: optimize_def load_candidates_scores)
qed

lemma load_candidates_table:
  "load_candidates fs self = Inr s \<Longrightarrow> \<exists>df. candidates_df s = Some df"
  by (auto simp: load_candidates_def split: option.splits if_splits)

lemma prepare_scores_some:
  "candidates_df s = Some df \<Longrightarrow>
     \<exists>x. scores (prepare_scores s) = Some (sanitize_scores x) \<and>
         x = (case scores s of None \<Rightarrow> extract_scores df | Some sc \<Rightarrow> sc)"
  by (cases "scores s") (simp_all add: prepare_scores_def)

lemma load_archetypes_scores: "load_archetypes fs s = Inr s' \<Longrightarrow> scores s' = scores s"
  by (auto simp: load_archetypes_def split: option.splits)

lemma ensure_archetypes_scores: "ensure_archetypes fs s = Inr s' \<Longrightarrow> scores s' = scores s"
  using load_archetypes_scores[of fs s s'] by (auto simp: ensure_archetypes_def split: if_splits)

lemma optimize_all_self:
  assumes "optimize_all W s4 g = Inr (results, self', g')"
  shows "self' = s4\<lparr>best_solutions := results\<rparr>"
proof -
  from assms obtain archs where archs: "archetypes s4 = Some archs"
    by (cases "archetypes s4") (simp_all add: optimize_all_def)
  from assms archs obtain res gg where loop: "optimize_loop W s4 archs [] g = Inr (res, gg)"
    by (cases "optimize_loop W s4 archs [] g") (auto simp: optimize_all_def)
  show ?thesis
    using assms archs loop by (auto simp: optimize_all_def Let_def split: if_splits sum.splits)
qed

lemma optimize_result_scores:
  assumes "optimize W fs self g = Inr (results, self', g')"
  shows "\<exists>s1. load_candidates fs self = Inr s1 \<and> scores self' = scores (prepare_scores s1)"
proof -
  from assms obtain s1 where s1: "load_candidates fs self = Inr s1"
    by (cases "load_candidates fs self") (simp_all add: optimize_def)
  from assms s1 obtain s4 where s4: "ensure_archetypes fs (prepare_scores s1) = Inr s4"
    by (cases "ensure_archetypes fs (prepare_scores s1)") (simp_all add: optimize_def)
  have "optimize_all W s4 g = Inr (results, self', g')" using assms s1 s4 by (simp add: optimize_def)
  then have "self' = s4\<lparr>best_solutions := results\<rparr>" by (rule optimize_all_self)
  then have "scores self' = scores (prepare_scores s1)"
    using ensure_archetypes_scores[OF s4] by simp
  then show ?thesis using s1 by simp
qed

lemma sanitize_scores_finite:
  "list_all (\<lambda>x. \<exists>r. x = Fin r) (technical_scores (sanitize_scores sc)) \<and>
   list_all (\<lambda>x. \<exists>r. x = Fin r) (education_scores (sanitize_scores sc)) \<and>
   list_all (\<lambda>x. \<exists>r. x = Fin r) (soft_skills_scores (sanitize_scores sc)) \<and>
   list_all (\<lambda>x. \<exists>r. x = Fin r) (overall_scores (sanitize_scores sc))"
  by (simp add: sanitize_scores_def list_all_iff nan_to_num_finite)

lemma load_candidates_given: "candidates_df self = Some df \<Longrightarrow> load_candidates fs self = Inr self"
  by (simp add: load_candidates_def)

lemma optimize_after_load:
  "load_candidates fs self = Inr s1 \<Longrightarrow>
     optimize W fs self g =
       (case ensure_archetypes fs (prepare_scores s1) of
          Inl err \<Rightarrow> Inl err
        | Inr s4 \<Rightarrow> optimize_all W s4 g)"
  by (simp add: optimize_def)

lemma prepare_scores_loaded:
  "candidates_df s1 = Some df \<Longrightarrow>
     prepare_scores s1 =
       s1\<lparr>scores := Some (sanitize_scores
                             (case scores s1 of None \<Rightarrow> extract_scores df | Some sc \<Rightarrow> sc))\<rparr>"
  by (cases "scores s1") (simp_all add: prepare_scores_def)

lemma prepare_scores_fixed:
  "prepare_scores (s\<lparr>scores := Some (sanitize_scores x)\<rparr>) = s\<lparr>scores := Some (sanitize_scores x)\<rparr>"
  by (simp add: prepare_scores_def sanitize_scores_idem)

lemma optimize_on_sanitized:
  assumes l: "load_candidates fs self = Inr s1" and df: "candidates_df s1 = Some df"
    and raw: "raw = (case scores s1 of None \<Rightarrow> extract_scores df | Some sc \<Rightarrow> sc)"
    and s3: "s3 = s1\<lparr>scores := Some (sanitize_scores raw)\<rparr>"
  shows "optimize W fs self g = optimize W fs s3 g"
    and "optimize W fs self g =
           (case ensure_archetypes fs s3 of Inl err \<Rightarrow> Inl err | Inr s4 \<Rightarrow> optimize_all W s4 g)"
    and "\<forall>s4. ensure_archetypes fs s3 = Inr s4 \<longrightarrow> scores s4 = Some (sanitize_scores raw)"
proof -
  have p: "prepare_scores s1 = s3" using prepare_scores_loaded[OF df] raw s3 by simp
  show b: "optimize W fs self g =
           (case ensure_archetypes fs s3 of Inl err \<Rightarrow> Inl err | Inr s4 \<Rightarrow> optimize_all W s4 g)"
    using optimize_after_load[OF l] p by simp
  have "candidates_df s3 = Some df" using df s3 by simp
  then have l3: "load_candidates fs s3 = Inr s3" by (rule load_candidates_given)
  have p3: "prepare_scores s3 = s3" unfolding s3 by (rule prepare_scores_fixed)
  have "optimize W fs s3 g =
           (case ensure_archetypes fs s3 of Inl err \<Rightarrow> Inl err | Inr s4 \<Rightarrow> optimize_all W s4 g)"
    using optimize_after_load[OF l3] p3 by simp
  then show "optimize W fs self g = optimize W fs s3 g" using b by simp
  show "\<forall>s4. ensure_archetypes fs s3 = Inr s4 \<longrightarrow> scores s4 = Some (sanitize_scores raw)"
    using ensure_archetypes_scores[of fs s3] s3 by simp
qed

lemma zeroed_optimize:
  "optimize demo_eval empty_fs zeroed_optimizer [0, 1, 2] = Inr (zeroed_results, zeroed_after, [])"
  by code_simp

lemma file_optimizer_built:
  "init_optimizer file_fs (Some ''candidates.csv'') None (Some ''archetypes.json'') None
     3 2 (1 / 10) (4 / 5) 1 1 (Some ''data/output/optimized_teams'') = Inr file_optimizer"
  by code_simp

lemma file_load: "load_candidates file_fs file_optimizer = Inr file_loaded"
  by code_simp

lemma file_loaded_fields:
  "candidates_df file_loaded = Some zeroed_table" "scores file_loaded = None"
  by (simp_all add: file_loaded_def file_optimizer_def)

lemma file_optimize:
  "optimize demo_eval file_fs file_optimizer [0, 1, 2] = Inr (zeroed_results, file_after, [])"
  by code_simp

text \<open>
  Claim C3, as the code has it. \<^verbatim>\<open>optimize\<close> passes the four score arrays through
  \<^verbatim>\<open>np.nan_to_num(x, nan=0.0)\<close> before the first archetype is run, whether the table was
  given or is read from its file by the call: once the table \<open>df\<close> is there, with \<open>raw\<close>
  the arrays of the optimizer, or those extracted from \<open>df\<close> when it has none, the call is
  the call on the optimizer \<open>s3\<close> that holds the sanitized arrays; all that is left of it
  is the loading of the archetypes and the runs, and the optimizer the runs are made on
  holds the sanitized arrays. A call on an optimizer whose arrays are sanitized already
  gives the same result, and the arrays a call leaves hold finite numbers only. NaN
  becomes 0.0, so that an array with NaN at a position and the same array with 0.0
  there are read alike. The infinities do not become 0.0: \<open>+Inf\<close> becomes the largest
  finite double and \<open>-Inf\<close> the most negative one. Whatever the scores are,
  \<^verbatim>\<open>_calculate_fitness\<close> never returns NaN.
\<close>

theorem sanitation_at_load:
  "(\<forall>s1. load_candidates fs self = Inr s1 \<longrightarrow>
      (\<exists>df raw s3. candidates_df s1 = Some df \<and>
         raw = (case scores s1 of None \<Rightarrow> extract_scores df | Some sc \<Rightarrow> sc) \<and>
         s3 = s1\<lparr>scores := Some (sanitize_scores raw)\<rparr> \<and>
         optimize W fs self g = optimize W fs s3 g \<and>
         optimize W fs self g =
           (case ensure_archetypes fs s3 of Inl err \<Rightarrow> Inl err | Inr s4 \<Rightarrow> optimize_all W s4 g) \<and>
         (\<forall>s4. ensure_archetypes fs s3 = Inr s4 \<longrightarrow> scores s4 = Some (sanitize_scores raw)))) \<and>
   optimize W fs (self\<lparr>scores := map_option sanitize_scores (scores self)\<rparr>) g = optimize W fs self g \<and>
   (\<forall>results self' g'. optimize W fs self g = Inr (results, self', g') \<longrightarrow>
      (\<exists>raw. scores self' = Some (sanitize_scores raw) \<and>
         list_all (\<lambda>x. \<exists>r. x = Fin r) (technical_scores (sanitize_scores raw)) \<and>
         list_all (\<lambda>x. \<exists>r. x = Fin r) (education_scores (sanitize_scores raw)) \<and>
         list_all (\<lambda>x. \<exists>r. x = Fin r) (soft_skills_scores (sanitize_scores raw)) \<and>
         list_all (\<lambda>x. \<exists>r. x = Fin r) (overall_scores (sanitize_scores raw)))) \<and>
   nan_to_num NaN = Fin 0 \<and> nan_to_num PInf = Fin dbl_max \<and> nan_to_num NInf = Fin (- dbl_max) \<and>
   (\<forall>r. nan_to_num (Fin r) = Fin r) \<and>
   (\<forall>xs i. map nan_to_num (xs[i := NaN]) = map nan_to_num (xs[i := Fin 0])) \<and>
   (\<forall>sc c a f. calculate_fitness W sc c a = Inr f \<longrightarrow> \<not> isnan f)"
proof -
  have l: "\<exists>df raw s3. candidates_df s1 = Some df \<and>
         raw = (case scores s1 of None \<Rightarrow> extract_scores df | Some sc \<Rightarrow> sc) \<and>
         s3 = s1\<lparr>scores := Some (sanitize_scores raw)\<rparr> \<and>
         optimize W fs self g = optimize W fs s3 g \<and>
         optimize W fs self g =
           (case ensure_archetypes fs s3 of Inl err \<Rightarrow> Inl err | Inr s4 \<Rightarrow> optimize_all W s4 g) \<and>
         (\<forall>s4. ensure_archetypes fs s3 = Inr s4 \<longrightarrow> scores s4 = Some (sanitize_scores raw))"
    if s1: "load_candidates fs self = Inr s1" for s1
  proof -
    obtain df where df: "candidates_df s1 = Some df" using load_candidates_table[OF s1] by blast
    define raw where "raw = (case scores s1 of None \<Rightarrow> extract_scores df | Some sc \<Rightarrow> sc)"
    define s3 where "s3 = s1\<lparr>scores := Some (sanitize_scores raw)\<rparr>"
    note R = optimize_on_sanitized[OF s1 df raw_def s3_def]
    show ?thesis
      using df raw_def s3_def R(1) R(2) R(3) by blast
  qed
  have a: "optimize W fs (self\<lparr>scores := map_option sanitize_scores (scores self)\<rparr>) g
             = optimize W fs self g" by (rule optimize_sanitized)
  have b: "\<exists>raw. scores self' = Some (sanitize_scores raw) \<and>
         list_all (\<lambda>x. \<exists>r. x = Fin r) (technical_scores (sanitize_scores raw)) \<and>
         list_all (\<lambda>x. \<exists>r. x = Fin r) (education_scores (sanitize_scores raw)) \<and>
         list_all (\<lambda>x. \<exists>r. x = Fin r) (soft_skills_scores (sanitize_scores raw)) \<and>
         list_all (\<lambda>x. \<exists>r. x = Fin r) (overall_scores (sanitize_scores raw))"
    if opt: "optimize W fs self g = Inr (results, self', g')" for results self' g'
  proof -
    obtain s1 where s1: "load_candidates fs self = Inr s1"
      "scores self' = scores (prepare_scores s1)"
      using optimize_result_scores[OF opt] by blast
    obtain df where "candidates_df s1 = Some df" using load_candidates_table[OF s1(1)] by blast
    then obtain raw where "scores (prepare_scores s1) = Some (sanitize_scores raw)"
      using prepare_scores_some by blast
    then show ?thesis using s1(2) sanitize_scores_finite[of raw] by auto
  qed
  have c: "map nan_to_num (xs[i := NaN]) = map nan_to_num (xs[i := Fin 0])" for xs i
    by (simp add: map_update)
  have d: "\<not> isnan f" if "calculate_fitness W sc c a = Inr f" for sc c a f
    using that by (rule calculate_fitness_not_nan)
  have e: "nan_to_num NaN = Fin 0 \<and> nan_to_num PInf = Fin dbl_max \<and>
           nan_to_num NInf = Fin (- dbl_max) \<and> (\<forall>r. nan_to_num (Fin r) = Fin r)" by simp
  show ?thesis
    apply (intro conjI)
    using l a b c d e by blast+
qed

text \<open>
  The optimizer built from files: the table is read by the call, the arrays are
  extracted from it, and the call is the call on the optimizer with the sanitized
  arrays; it returns the team made of the third candidate and leaves sanitized arrays.
  The same for the optimizer that was given its table.
\<close>

theorem sanitation_at_load_witness:
  "load_candidates file_fs file_optimizer = Inr file_loaded \<and>
   scores file_loaded = None \<and>
   optimize demo_eval file_fs file_optimizer [0, 1, 2]
     = optimize demo_eval file_fs file_sanitized [0, 1, 2] \<and>
   optimize demo_eval file_fs file_optimizer [0, 1, 2] = Inr (zeroed_results, file_after, []) \<and>
   (\<exists>raw. scores file_after = Some (sanitize_scores raw) \<and>
      list_all (\<lambda>x. \<exists>r. x = Fin r) (overall_scores (sanitize_scores raw))) \<and>
   optimize demo_eval empty_fs zeroed_optimizer [0, 1, 2] = Inr (zeroed_results, zeroed_after, []) \<and>
   (\<exists>raw. scores zeroed_after = Some (sanitize_scores raw) \<and>
      list_all (\<lambda>x. \<exists>r. x = Fin r) (overall_scores (sanitize_scores raw)))"
proof -
  note T = sanitation_at_load[of file_fs file_optimizer demo_eval "[0, 1, 2]"]
  note U = sanitation_at_load[of empty_fs zeroed_optimizer demo_eval "[0, 1, 2]"]
  have "\<exists>df raw s3. candidates_df file_loaded = Some df \<and>
         raw = (case scores file_loaded of None \<Rightarrow> extract_scores df | Some sc \<Rightarrow> sc) \<and>
         s3 = file_loaded\<lparr>scores := Some (sanitize_scores raw)\<rparr> \<and>
         optimize demo_eval file_fs file_optimizer [0, 1, 2] = optimize demo_eval file_fs s3 [0, 1, 2]"
    using conjunct1[OF T] file_load by blast
  then have a: "optimize demo_eval file_fs file_optimizer [0, 1, 2]
                  = optimize demo_eval file_fs file_sanitized [0, 1, 2]"
    using file_loaded_fields by (auto simp: file_sanitized_def)
  have b: "\<exists>raw. scores file_after = Some (sanitize_scores raw) \<and>
      list_all (\<lambda>x. \<exists>r. x = Fin r) (overall_scores (sanitize_scores raw))"
    using conjunct1[OF conjunct2[OF conjunct2[OF T]]] file_optimize by blast
  have c: "\<exists>raw. scores zeroed_after = Some (sanitize_scores raw) \<and>
      list_all (\<lambda>x. \<exists>r. x = Fin r) (overall_scores (sanitize_scores raw))"
    using conjunct1[OF conjunct2[OF conjunct2[OF U]]] zeroed_optimize by blast
  show ?thesis using a b c file_load file_loaded_fields(2) file_optimize zeroed_optimize by blast
qed

text \<open>
  An infinite score is not read as 0.0: after sanitation the overall score of the first
  candidate of \<open>run_scores\<close> is the largest finite double, and the team made of that
  candidate has that fitness, where it has fitness 0.0 when the score is 0.0.
\<close>

theorem infinite_score_not_zeroed:
  "overall_scores (sanitize_scores run_scores) = [Fin dbl_max, Fin 0, Fin (1 / 2)] \<and>
   dbl_max \<noteq> 0 \<and>
   calculate_fitness demo_eval (sanitize_scores run_scores) [0] demo_archetype = Inr (Fin dbl_max) \<and>
   calculate_fitness demo_eval (sanitize_scores zeroed_scores) [0] demo_archetype = Inr (Fin 0)"
proof -
  have a: "overall_scores (sanitize_scores run_scores) = [Fin dbl_max, Fin 0, Fin (1 / 2)]"
    by (simp add: sanitize_scores_def run_scores_def)
  have b: "dbl_max \<noteq> 0" using dbl_max_pos by simp
  have c: "calculate_fitness demo_eval (sanitize_scores run_scores) [0] demo_archetype
             = Inr (Fin dbl_max)"
    by (simp add: calculate_fitness_def sanitize_scores_def run_scores_def demo_eval_def gather_def)
  have d: "calculate_fitness demo_eval (sanitize_scores zeroed_scores) [0] demo_archetype
             = Inr (Fin 0)"
    by (simp add: calculate_fitness_def sanitize_scores_def zeroed_scores_def run_scores_def
        demo_eval_def gather_def)
  show ?thesis using a b c d by simp
qed

section \<open>Empty inputs of the orchestrator\<close>

lemma calculate_fitness_empty: "calculate_fitness W sc [] a = Inl ValueError"
  by (simp add: calculate_fitness_def gather_def)

lemma evaluate_population_empty_teams:
  "evaluate_population W sc a (replicate (Suc k) []) = Inl ValueError"
  by (simp add: calculate_fitness_empty)

lemma generation_step_empty_teams:
  assumes "population st = replicate k []"
  shows "generation_step W self sc a st = Inl ValueError"
proof (cases k)
  case 0
  then show ?thesis using assms by (simp add: generation_step_def np_argmax_empty)
next
  case (Suc m)
  have "evaluate_population W sc a (replicate (Suc m) []) = Inl ValueError"
    by (rule evaluate_population_empty_teams)
  then show ?thesis using assms Suc by (simp only: generation_step_def sum.case)
qed

lemma init_loop_empty_pool:
  "init_loop k 0 tsize pop g = Inl ValueError \<or> init_loop k 0 tsize pop g = Inr (pop @ replicate k [], g)"
proof (cases "tsize = 0")
  case True
  then show ?thesis by (simp add: init_loop_zero)
next
  case False
  then have f: "np_random_choice_noreplace 0 tsize g' = Inl ValueError" for g'
    by (simp add: np_random_choice_noreplace_def)
  show ?thesis by (cases k) (simp_all add: f)
qed

lemma optimize_for_archetype_empty_pool:
  assumes "scores self = Some sc" and "num_candidates sc = 0" and "candidates_df self = Some df"
  shows "optimize_for_archetype W self a g = Inl ValueError \<or>
         optimize_for_archetype W self a g = Inl TypeError"
proof -
  let ?k = "nat (population_size self)"
  have "initialize_population (population_size self) 0 (team_size self) g = Inl ValueError \<or>
        initialize_population (population_size self) 0 (team_size self) g = Inr (replicate ?k [], g)"
    using init_loop_empty_pool[of ?k "team_size self" "[]" g] by (simp add: initialize_population_def)
  then show ?thesis
  proof
    assume "initialize_population (population_size self) 0 (team_size self) g = Inl ValueError"
    then show ?thesis using assms by (simp add: optimize_for_archetype_def)
  next
    assume i: "initialize_population (population_size self) 0 (team_size self) g
                 = Inr (replicate ?k [], g)"
    let ?st0 = "\<lparr>population = replicate ?k [], best_chromosome = None, best_fitness = NInf,
                  gen_rng = g\<rparr>"
    show ?thesis
    proof (cases "nat (generations self)")
      case 0
      then show ?thesis using assms i by (simp add: optimize_for_archetype_def)
    next
      case (Suc m)
      have "generation_step W self sc a ?st0 = Inl ValueError"
        by (rule generation_step_empty_teams[of _ ?k]) simp
      then have "evolve W self sc a (Suc m) ?st0 = Inl ValueError" by simp
      then show ?thesis using assms i Suc by (simp add: optimize_for_archetype_def)
    qed
  qed
qed

lemma optimize_loop_first_fails:
  "optimize_for_archetype W self a g = Inl err \<Longrightarrow> optimize_loop W self (a # rest) results g = Inl err"
  by simp

lemma prepare_scores_fields:
  "candidates_df (prepare_scores s) = candidates_df s"
  "archetypes (prepare_scores s) = archetypes s"
  "archetypes_file (prepare_scores s) = archetypes_file s"
  "output_dir (prepare_scores s) = output_dir s"
  by (cases "scores s"; simp add: prepare_scores_def)+

lemma load_candidates_fields:
  assumes "load_candidates fs self = Inr s1"
  shows "archetypes s1 = archetypes self" "archetypes_file s1 = archetypes_file self"
    "output_dir s1 = output_dir self"
  using assms by (auto simp: load_candidates_def split: option.splits if_splits)

lemma load_archetypes_fields:
  assumes "load_archetypes fs s = Inr s4"
  shows "candidates_df s4 = candidates_df s" "output_dir s4 = output_dir s"
  using assms by (auto simp: load_archetypes_def split: option.splits)

lemma ensure_archetypes_fields:
  assumes "ensure_archetypes fs s = Inr s4"
  shows "candidates_df s4 = candidates_df s" "output_dir s4 = output_dir s"
  using assms load_archetypes_fields[of fs s s4]
  by (auto simp: ensure_archetypes_def split: if_splits)

lemma optimize_load_fails: "load_candidates fs self = Inl e \<Longrightarrow> optimize W fs self g = Inl e"
  by (simp add: optimize_def)

lemma load_candidates_nothing:
  "candidates_df self = None \<Longrightarrow> \<not> truthy (candidates_file self) \<Longrightarrow>
     load_candidates fs self = Inl ValueError"
  by (cases "candidates_file self") (simp_all add: load_candidates_def)

lemma optimize_no_archetypes:
  assumes l: "load_candidates fs self = Inr s1"
    and e: "ensure_archetypes fs (prepare_scores s1) = Inr s4"
    and a: "archetypes s4 = Some []"
  shows "optimize W fs self g =
           (if truthy (output_dir self) then Inl ValueError
            else Inr ([], s4\<lparr>best_solutions := []\<rparr>, g))"
proof -
  have o: "output_dir s4 = output_dir self"
    using ensure_archetypes_fields(2)[OF e] load_candidates_fields(3)[OF l]
    by (simp add: prepare_scores_fields)
  have "optimize W fs self g = optimize_all W s4 g" using optimize_after_load[OF l] e by simp
  also have "\<dots> = (if truthy (output_dir self) then Inl ValueError
                    else Inr ([], s4\<lparr>best_solutions := []\<rparr>, g))"
    using a o by (simp add: optimize_all_def save_results_def)
  finally show ?thesis .
qed

lemma optimize_archetypes_missing:
  assumes l: "load_candidates fs self = Inr s1" and "archetypes self = None"
    and "\<not> truthy (archetypes_file self)"
  shows "optimize W fs self g = Inl ValueError"
proof -
  have "ensure_archetypes fs (prepare_scores s1) = Inl ValueError"
    using assms(2,3) load_candidates_fields(1,2)[OF l]
    by (simp add: ensure_archetypes_def prepare_scores_fields)
  then show ?thesis using optimize_after_load[OF l] by simp
qed

lemma optimize_empty_pool:
  assumes l: "load_candidates fs self = Inr s1"
    and pool: "(scores s1 = None \<and> candidates_df s1 = Some []) \<or>
               (\<exists>sc. scores s1 = Some sc \<and> num_candidates sc = 0)"
    and e: "ensure_archetypes fs (prepare_scores s1) = Inr s4"
    and a: "archetypes s4 = Some (a # rest)"
  shows "optimize W fs self g = Inl ValueError \<or> optimize W fs self g = Inl TypeError"
proof -
  obtain df where df: "candidates_df s1 = Some df" using load_candidates_table[OF l] by blast
  define raw where "raw = (case scores s1 of None \<Rightarrow> extract_scores df | Some sc \<Rightarrow> sc)"
  have p: "prepare_scores s1 = s1\<lparr>scores := Some (sanitize_scores raw)\<rparr>"
    unfolding raw_def by (rule prepare_scores_loaded[OF df])
  have "num_candidates raw = 0"
    using pool df by (auto simp: raw_def extract_scores_def)
  then have n: "num_candidates (sanitize_scores raw) = 0" by (simp add: sanitize_scores_def)
  have sc: "scores s4 = Some (sanitize_scores raw)"
    using ensure_archetypes_scores[OF e] p by simp
  have d4: "candidates_df s4 = Some df"
    using ensure_archetypes_fields(1)[OF e] df by (simp add: prepare_scores_fields)
  have "optimize_for_archetype W s4 a g = Inl ValueError \<or>
        optimize_for_archetype W s4 a g = Inl TypeError"
    by (rule optimize_for_archetype_empty_pool[OF sc n d4])
  then have "optimize_all W s4 g = Inl ValueError \<or> optimize_all W s4 g = Inl TypeError"
    using a by (auto simp: optimize_all_def)
  moreover have "optimize W fs self g = optimize_all W s4 g"
    using optimize_after_load[OF l] e by simp
  ultimately show ?thesis by simp
qed

lemma aimless_load: "load_candidates file_fs aimless_optimizer = Inr aimless_loaded"
  by code_simp

lemma aimless_archetypes:
  "ensure_archetypes file_fs (prepare_scores aimless_loaded) = Inr (prepare_scores aimless_loaded)"
  "archetypes (prepare_scores aimless_loaded) = Some []"
  "truthy (output_dir aimless_optimizer)"
  by code_simp+

lemma nobody_load: "load_candidates file_fs nobody_optimizer = Inr nobody_loaded"
  by code_simp

lemma nobody_archetypes:
  "ensure_archetypes file_fs (prepare_scores nobody_loaded) = Inr (prepare_scores nobody_loaded)"
  "archetypes (prepare_scores nobody_loaded) = Some [demo_archetype]"
  "scores nobody_loaded = None" "candidates_df nobody_loaded = Some []"
  by code_simp+

text \<open>
  Claim C7, as the code has it. The code has no configuration error of its own. What
  \<^verbatim>\<open>optimize\<close> does on empty inputs, whether the table was given or is read from its
  file by the call (\<open>s1\<close> is the optimizer once the table is there, \<open>s4\<close> the optimizer
  once the archetypes are there as well):
  \<^item> when the table cannot be had, the call fails with the error of that step; with no
    table and no file name it is ValueError;
  \<^item> with an empty list of archetypes it raises the ValueError of \<^verbatim>\<open>save_results\<close> when
    an output directory is set, and returns the empty dictionary when none is set;
  \<^item> with no archetypes and no archetypes file it raises ValueError;
  \<^item> with an empty pool (an empty table whose arrays are still to be extracted, or arrays
    of no candidate) and at least one archetype the first run fails, with the ValueError
    of the sampling, of \<^verbatim>\<open>np.argmax\<close> or of \<^verbatim>\<open>np.max\<close>, or with the TypeError of indexing
    the table by \<^verbatim>\<open>None\<close>.
\<close>

theorem optimize_empty_inputs:
  "(\<forall>e. load_candidates fs self = Inl e \<longrightarrow> optimize W fs self g = Inl e) \<and>
   (candidates_df self = None \<and> \<not> truthy (candidates_file self) \<longrightarrow>
      optimize W fs self g = Inl ValueError) \<and>
   (\<forall>s1 s4. load_candidates fs self = Inr s1 \<and>
        ensure_archetypes fs (prepare_scores s1) = Inr s4 \<and> archetypes s4 = Some [] \<longrightarrow>
      optimize W fs self g =
        (if truthy (output_dir self) then Inl ValueError
         else Inr ([], s4\<lparr>best_solutions := []\<rparr>, g))) \<and>
   (\<forall>s1. load_candidates fs self = Inr s1 \<and> archetypes self = None
        \<and> \<not> truthy (archetypes_file self) \<longrightarrow>
      optimize W fs self g = Inl ValueError) \<and>
   (\<forall>s1 s4 a rest. load_candidates fs self = Inr s1
        \<and> ((scores s1 = None \<and> candidates_df s1 = Some []) \<or>
           (\<exists>sc. scores s1 = Some sc \<and> num_candidates sc = 0))
        \<and> ensure_archetypes fs (prepare_scores s1) = Inr s4
        \<and> archetypes s4 = Some (a # rest) \<longrightarrow>
      optimize W fs self g = Inl ValueError \<or> optimize W fs self g = Inl TypeError)"
proof -
  have c1: "optimize W fs self g = Inl e" if "load_candidates fs self = Inl e" for e
    using that by (rule optimize_load_fails)
  have c2: "optimize W fs self g = Inl ValueError"
    if "candidates_df self = None \<and> \<not> truthy (candidates_file self)"
    using that load_candidates_nothing[of self fs] optimize_load_fails[of fs self ValueError W g]
    by simp
  have c3: "optimize W fs self g =
        (if truthy (output_dir self) then Inl ValueError
         else Inr ([], s4\<lparr>best_solutions := []\<rparr>, g))"
    if "load_candidates fs self = Inr s1 \<and>
        ensure_archetypes fs (prepare_scores s1) = Inr s4 \<and> archetypes s4 = Some []" for s1 s4
    using that optimize_no_archetypes[of fs self s1 s4 W g] by blast
  have c4: "optimize W fs self g = Inl ValueError"
    if "load_candidates fs self = Inr s1 \<and> archetypes self = None
        \<and> \<not> truthy (archetypes_file self)" for s1
    using that optimize_archetypes_missing[of fs self s1 W g] by blast
  have c5: "optimize W fs self g = Inl ValueError \<or> optimize W fs self g = Inl TypeError"
    if "load_candidates fs self = Inr s1
        \<and> ((scores s1 = None \<and> candidates_df s1 = Some []) \<or>
           (\<exists>sc. scores s1 = Some sc \<and> num_candidates sc = 0))
        \<and> ensure_archetypes fs (prepare_scores s1) = Inr s4
        \<and> archetypes s4 = Some (a # rest)" for s1 s4 a rest
    using that optimize_empty_pool[of fs self s1 s4 a rest W g] by blast
  show ?thesis
    apply (intro conjI allI impI)
    subgoal by (rule c1)
    subgoal by (rule c2)
    subgoal by (rule c3)
    subgoal by (rule c4)
    subgoal by (rule c5)
    done
qed

text \<open>
  The optimizer built from files, pointed at the file with no row: with no archetype
  and the default output directory the call raises ValueError; with one archetype the
  first run fails. The optimizer given the empty table and no archetype raises
  ValueError when an output directory is set.
\<close>

theorem optimize_empty_inputs_witness:
  "load_candidates file_fs aimless_optimizer = Inr aimless_loaded \<and>
   optimize demo_eval file_fs aimless_optimizer [] = Inl ValueError \<and>
   load_candidates file_fs nobody_optimizer = Inr nobody_loaded \<and>
   (optimize demo_eval file_fs nobody_optimizer [] = Inl ValueError \<or>
    optimize demo_eval file_fs nobody_optimizer [] = Inl TypeError) \<and>
   optimize demo_eval empty_fs (empty_optimizer\<lparr>output_dir := Some ''out''\<rparr>) [] = Inl ValueError"
proof -
  note T = optimize_empty_inputs[of file_fs aimless_optimizer demo_eval "[]"]
  note U = optimize_empty_inputs[of file_fs nobody_optimizer demo_eval "[]"]
  let ?s = "empty_optimizer\<lparr>output_dir := Some ''out''\<rparr>"
  note V = optimize_empty_inputs[of empty_fs ?s demo_eval "[]"]
  have "optimize demo_eval file_fs aimless_optimizer [] =
        (if truthy (output_dir aimless_optimizer) then Inl ValueError
         else Inr ([], (prepare_scores aimless_loaded)\<lparr>best_solutions := []\<rparr>, []))"
    using conjunct1[OF conjunct2[OF conjunct2[OF T]]] aimless_load aimless_archetypes(1,2)
    by blast
  then have a: "optimize demo_eval file_fs aimless_optimizer [] = Inl ValueError"
    using aimless_archetypes(3) by simp
  have b: "optimize demo_eval file_fs nobody_optimizer [] = Inl ValueError \<or>
           optimize demo_eval file_fs nobody_optimizer [] = Inl TypeError"
    using conjunct2[OF conjunct2[OF conjunct2[OF conjunct2[OF U]]]] nobody_load nobody_archetypes
    by blast
  have h: "load_candidates empty_fs ?s = Inr ?s"
    "ensure_archetypes empty_fs (prepare_scores ?s) = Inr (prepare_scores ?s)"
    "archetypes (prepare_scores ?s) = Some []" "truthy (output_dir ?s)"
    by code_simp+
  have "optimize demo_eval empty_fs ?s [] =
        (if truthy (output_dir ?s) then Inl ValueError
         else Inr ([], (prepare_scores ?s)\<lparr>best_solutions := []\<rparr>, []))"
    using conjunct1[OF conjunct2[OF conjunct2[OF V]]] h(1,2,3) by blast
  then have c: "optimize demo_eval empty_fs ?s [] = Inl ValueError" using h(4) by simp
  show ?thesis using a b c aimless_load nobody_load by blast
qed

text \<open>
  With an empty table, an empty list of archetypes and no output directory,
  \<^verbatim>\<open>optimize\<close> returns the empty dictionary.
\<close>

theorem optimize_empty_returns:
  "optimize demo_eval empty_fs empty_optimizer [] = Inr ([], empty_optimizer, [])"
  by code_simp

end
